theory Spec2Isabelle
  imports Complex_Main
begin

section \<open>Python values, exceptions and sequencing\<close>

text \<open>
  The exceptions the modelled code can raise. \<open>AssertionError\<close> is the contract
  violation of an \<^verbatim>\<open>assert\<close>, \<open>IndexError\<close> an out-of-range subscript,
  \<open>TypeError\<close> an operator that no operand implements, \<open>ValueError\<close> a numpy shape
  mismatch (or an integer with too many digits to print), \<open>OverflowError\<close> a number
  beyond the range of a float, \<open>LinAlgError\<close> a failure of the linear-algebra collaborator,
  \<open>NotImplementedError\<close> an operator a manifold class does not provide.
  \<open>NotANumber\<close> is not an exception: numpy answers \<^verbatim>\<open>nan\<close> or \<^verbatim>\<open>inf\<close> (with a
  warning) where a real result does not exist, and the model, whose numbers are exact
  reals, reports that outcome so.
\<close>

datatype error =
  AssertionError | IndexError | TypeError | ValueError | OverflowError | LinAlgError
  | NotImplementedError | NotANumber

text \<open>Sequencing of two computations that may raise: the first exception wins.\<close>

definition and_then :: "error + 'a \<Rightarrow> ('a \<Rightarrow> error + 'b) \<Rightarrow> error + 'b" where
  "and_then m f = (case m of Inl e \<Rightarrow> Inl e | Inr v \<Rightarrow> f v)"

text \<open>
  A list comprehension \<^verbatim>\<open>[f(k) for k in ks]\<close>: the elements are computed from left
  to right and the first exception leaves the comprehension.
\<close>

fun list_comp :: "('k \<Rightarrow> error + 'a) \<Rightarrow> 'k list \<Rightarrow> error + 'a list" where
  "list_comp f [] = Inr []"
| "list_comp f (k # ks) =
     (case f k of
        Inl e \<Rightarrow> Inl e
      | Inr v \<Rightarrow> (case list_comp f ks of Inl e \<Rightarrow> Inl e | Inr vs \<Rightarrow> Inr (v # vs)))"

text \<open>
  The same comprehension when each element also draws from the process-wide random
  generator: the generator state \<open>g\<close> is threaded through the elements in order.
\<close>

fun list_comp_st ::
  "('k \<Rightarrow> 'g \<Rightarrow> error + 'a \<times> 'g) \<Rightarrow> 'k list \<Rightarrow> 'g \<Rightarrow> error + 'a list \<times> 'g" where
  "list_comp_st f [] g = Inr ([], g)"
| "list_comp_st f (k # ks) g =
     (case f k g of
        Inl e \<Rightarrow> Inl e
      | Inr (v, g1) \<Rightarrow>
          (case list_comp_st f ks g1 of
             Inl e \<Rightarrow> Inl e
           | Inr (vs, g2) \<Rightarrow> Inr (v # vs, g2)))"

text \<open>
  Python subscripting \<^verbatim>\<open>xs[i]\<close> of a list: a negative index counts from the end,
  and an index outside the list raises \<open>IndexError\<close>.
\<close>

definition getitem :: "'a list \<Rightarrow> int \<Rightarrow> error + 'a" where
  "getitem xs i =
     (if 0 \<le> i \<and> i < int (length xs) then Inr (xs ! nat i)
      else if i < 0 \<and> - int (length xs) \<le> i then Inr (xs ! nat (int (length xs) + i))
      else Inl IndexError)"

text \<open>\<^verbatim>\<open>range(0, n)\<close> as the list of its indices.\<close>

definition range0 :: "nat \<Rightarrow> int list" where
  "range0 n = map int [0..<n]"

text \<open>
  \<^verbatim>\<open>np.sqrt\<close> of a real scalar: the square root, and \<^verbatim>\<open>nan\<close> for a negative
  argument.
\<close>

definition np_sqrt :: "real \<Rightarrow> error + real" where
  "np_sqrt x = (if x < 0 then Inl NotANumber else Inr (sqrt x))"

text \<open>
  \<^verbatim>\<open>np.sum\<close> of a list of scalars (\<open>0\<close> for the empty list; numpy gives that zero
  as a float).
\<close>

definition np_sum :: "'a::monoid_add list \<Rightarrow> 'a" where
  "np_sum xs = sum_list xs"

text \<open>
  \<^verbatim>\<open>np.sum\<close> of a list of Python integers. numpy first converts the list to an
  array: when every element lies in the range of a signed 64-bit integer the array has
  the element type \<^verbatim>\<open>int64\<close>, and the sum is computed in that type and wraps around
  silently. An element outside that range makes numpy choose another element type;
  that case is not covered (\<open>None\<close>).
\<close>

definition in_int64 :: "int \<Rightarrow> bool" where
  "in_int64 x \<longleftrightarrow> - (2 ^ 63) \<le> x \<and> x < 2 ^ 63"

definition wrap_int64 :: "int \<Rightarrow> int" where
  "wrap_int64 x = (x + 2 ^ 63) mod 2 ^ 64 - 2 ^ 63"

definition np_sum_int :: "int list \<Rightarrow> int option" where
  "np_sum_int xs = (if list_all in_int64 xs then Some (wrap_int64 (sum_list xs)) else None)"

text \<open>\<^verbatim>\<open>sep.join(parts)\<close> on strings.\<close>

fun join :: "string \<Rightarrow> string list \<Rightarrow> string" where
  "join sep [] = []"
| "join sep [s] = s"
| "join sep (s # t # ts) = s @ sep @ join sep (t # ts)"

section \<open>product.py: the tangent-vector value type\<close>



definition TangentVector_mul ::
  "(real \<Rightarrow> 'a \<Rightarrow> error + 'a) \<Rightarrow> 'a list \<Rightarrow> real \<Rightarrow> error + 'a list" where
  "TangentVector_mul cmul self other = list_comp (\<lambda>val. cmul other val) self"

definition TangentVector_rmul ::
  "(real \<Rightarrow> 'a \<Rightarrow> error + 'a) \<Rightarrow> 'a list \<Rightarrow> real \<Rightarrow> error + 'a list" where
  "TangentVector_rmul = TangentVector_mul"

definition TangentVector_div ::
  "('a \<Rightarrow> real \<Rightarrow> error + 'a) \<Rightarrow> 'a list \<Rightarrow> real \<Rightarrow> error + 'a list" where
  "TangentVector_div cdiv self other = list_comp (\<lambda>val. cdiv val other) self"

definition TangentVector_neg ::
  "('a \<Rightarrow> error + 'a) \<Rightarrow> 'a list \<Rightarrow> error + 'a list" where
  "TangentVector_neg cneg self = list_comp (\<lambda>val. cneg val) self"

text \<open>
  The special methods of \<^verbatim>\<open>TangentVector\<close> that take a scalar on the right, looked
  up by name as the interpreter does. The class body defines \<^verbatim>\<open>__mul__\<close>,
  \<^verbatim>\<open>__rmul__\<close> and \<^verbatim>\<open>__div__\<close>; its base class \<^verbatim>\<open>list\<close> adds no other method of
  this kind (\<^verbatim>\<open>list\<close> has no \<^verbatim>\<open>__truediv__\<close>, \<^verbatim>\<open>__floordiv__\<close> or \<^verbatim>\<open>__div__\<close>).
\<close>

definition TangentVector_scalar_method ::
  "(real \<Rightarrow> 'a \<Rightarrow> error + 'a) \<Rightarrow> ('a \<Rightarrow> real \<Rightarrow> error + 'a) \<Rightarrow> string \<Rightarrow>
   ('a list \<Rightarrow> real \<Rightarrow> error + 'a list) option" where
  "TangentVector_scalar_method cmul cdiv method =
     (if method = ''__mul__'' then Some (TangentVector_mul cmul)
      else if method = ''__rmul__'' then Some (TangentVector_rmul cmul)
      else if method = ''__div__'' then Some (TangentVector_div cdiv)
      else None)"

text \<open>
  The expression \<^verbatim>\<open>G / c\<close> for a tangent vector \<open>G\<close> and a Python number \<open>c\<close>.
  The package is Python 3 code (psd.py uses f-strings and the zero-argument
  \<^verbatim>\<open>super()\<close>), where \<^verbatim>\<open>/\<close> calls \<^verbatim>\<open>type(G).__truediv__(G, c)\<close>, then the
  reflected \<^verbatim>\<open>type(c).__rtruediv__(c, G)\<close>, which an \<^verbatim>\<open>int\<close> or \<^verbatim>\<open>float\<close> answers
  with \<^verbatim>\<open>NotImplemented\<close> for a list operand; when neither gives a result the
  interpreter raises \<open>TypeError\<close>. The method \<^verbatim>\<open>__div__\<close> is what Python 2 called.
\<close>

definition TangentVector_truediv_expr ::
  "(real \<Rightarrow> 'a \<Rightarrow> error + 'a) \<Rightarrow> ('a \<Rightarrow> real \<Rightarrow> error + 'a) \<Rightarrow> 'a list \<Rightarrow> real \<Rightarrow>
   error + 'a list" where
  "TangentVector_truediv_expr cmul cdiv G c =
     (case TangentVector_scalar_method cmul cdiv ''__truediv__'' of
        Some method \<Rightarrow> method G c
      | None \<Rightarrow> Inl TypeError)"

section \<open>product.py: the product manifold\<close>

text \<open>
  A child of a product is any object with the operators of the \<^verbatim>\<open>Manifold\<close> contract;
  the record holds them. \<open>'p\<close> is the child's type of points, \<open>'t\<close> of tangent
  vectors, \<open>'g\<close> the state of the random generator. The fields keep the source's
  names, with a suffix where the name is a constant of the logic (\<open>norm\<close>, \<open>dist\<close>,
  \<open>exp\<close>, \<open>log\<close>).
\<close>

record ('p, 't, 'g) manifold =
  name :: string
  dim :: int
  typicaldist :: real
  inner :: "'p \<Rightarrow> 't \<Rightarrow> 't \<Rightarrow> error + real"
  norm_m :: "'p \<Rightarrow> 't \<Rightarrow> error + real"
  dist_m :: "'p \<Rightarrow> 'p \<Rightarrow> error + real"
  proj :: "'p \<Rightarrow> 't \<Rightarrow> error + 't"
  egrad2rgrad :: "'p \<Rightarrow> 't \<Rightarrow> error + 't"
  ehess2rhess :: "'p \<Rightarrow> 't \<Rightarrow> 't \<Rightarrow> 't \<Rightarrow> error + 't"
  exp_m :: "'p \<Rightarrow> 't \<Rightarrow> error + 'p"
  retr :: "'p \<Rightarrow> 't \<Rightarrow> error + 'p"
  log_m :: "'p \<Rightarrow> 'p \<Rightarrow> error + 't"
  rand :: "'g \<Rightarrow> error + 'p \<times> 'g"
  randvec :: "'p \<Rightarrow> 'g \<Rightarrow> error + 't \<times> 'g"
  transp :: "'p \<Rightarrow> 'p \<Rightarrow> 't \<Rightarrow> error + 't"
  pairmean :: "'p \<Rightarrow> 'p \<Rightarrow> error + 'p"
  zerovec :: "'p \<Rightarrow> error + 't"

text \<open>The attributes \<^verbatim>\<open>__init__\<close> sets on a \<^verbatim>\<open>Product\<close>.\<close>

record ('p, 't, 'g) product =
  self_manifolds :: "('p, 't, 'g) manifold list"
  self_nmanifolds :: nat
  self_name :: string

definition Product_init :: "('p, 't, 'g) manifold list \<Rightarrow> ('p, 't, 'g) product" where
  "Product_init manifolds =
     \<lparr> self_manifolds = manifolds,
       self_nmanifolds = length manifolds,
       self_name = ''Product manifold: '' @ join '' X '' (map name manifolds) \<rparr>"

definition Product_name :: "('p, 't, 'g) product \<Rightarrow> string" where
  "Product_name self = self_name self"

definition Product_dim :: "('p, 't, 'g) product \<Rightarrow> int option" where
  "Product_dim self = np_sum_int (map dim (self_manifolds self))"

definition Product_typicaldist :: "('p, 't, 'g) product \<Rightarrow> error + real" where
  "Product_typicaldist self =
     np_sqrt (np_sum (map (\<lambda>man. (typicaldist man)\<^sup>2) (self_manifolds self)))"

definition Product_inner ::
  "('p, 't, 'g) product \<Rightarrow> 'p list \<Rightarrow> 't list \<Rightarrow> 't list \<Rightarrow> error + real" where
  "Product_inner self X G H =
     and_then
       (list_comp
          (\<lambda>k. and_then (getitem (self_manifolds self) k) (\<lambda>man.
                and_then (getitem X k) (\<lambda>x.
                and_then (getitem G k) (\<lambda>g.
                and_then (getitem H k) (\<lambda>h. inner man x g h)))))
          (range0 (self_nmanifolds self)))
       (\<lambda>vals. Inr (np_sum vals))"

definition Product_norm ::
  "('p, 't, 'g) product \<Rightarrow> 'p list \<Rightarrow> 't list \<Rightarrow> error + real" where
  "Product_norm self X G = and_then (Product_inner self X G G) np_sqrt"

definition Product_dist ::
  "('p, 't, 'g) product \<Rightarrow> 'p list \<Rightarrow> 'p list \<Rightarrow> error + real" where
  "Product_dist self X Y =
     and_then
       (list_comp
          (\<lambda>k. and_then (getitem (self_manifolds self) k) (\<lambda>man.
                and_then (getitem X k) (\<lambda>x.
                and_then (getitem Y k) (\<lambda>y.
                and_then (dist_m man x y) (\<lambda>d. Inr (d\<^sup>2))))))
          (range0 (self_nmanifolds self)))
       (\<lambda>vals. np_sqrt (np_sum vals))"

definition Product_proj ::
  "('p, 't, 'g) product \<Rightarrow> 'p list \<Rightarrow> 't list \<Rightarrow> error + 't list" where
  "Product_proj self X U =
     list_comp
       (\<lambda>k. and_then (getitem (self_manifolds self) k) (\<lambda>man.
             and_then (getitem X k) (\<lambda>x.
             and_then (getitem U k) (\<lambda>u. proj man x u))))
       (range0 (self_nmanifolds self))"

definition Product_egrad2rgrad ::
  "('p, 't, 'g) product \<Rightarrow> 'p list \<Rightarrow> 't list \<Rightarrow> error + 't list" where
  "Product_egrad2rgrad self X U =
     list_comp
       (\<lambda>k. and_then (getitem (self_manifolds self) k) (\<lambda>man.
             and_then (getitem X k) (\<lambda>x.
             and_then (getitem U k) (\<lambda>u. egrad2rgrad man x u))))
       (range0 (self_nmanifolds self))"

text \<open>
  \<^verbatim>\<open>ehess2rhess\<close> first evaluates \<^verbatim>\<open>self._manifolds[self._nmanifolds - 1]\<close> as a
  statement of its own and drops the value; only then does it dispatch.
\<close>

definition Product_ehess2rhess ::
  "('p, 't, 'g) product \<Rightarrow> 'p list \<Rightarrow> 't list \<Rightarrow> 't list \<Rightarrow> 't list \<Rightarrow> error + 't list" where
  "Product_ehess2rhess self X egrad ehess H =
     and_then (getitem (self_manifolds self) (int (self_nmanifolds self) - 1)) (\<lambda>_.
       list_comp
         (\<lambda>k. and_then (getitem (self_manifolds self) k) (\<lambda>man.
               and_then (getitem X k) (\<lambda>x.
               and_then (getitem egrad k) (\<lambda>eg.
               and_then (getitem ehess k) (\<lambda>eh.
               and_then (getitem H k) (\<lambda>h. ehess2rhess man x eg eh h))))))
         (range0 (self_nmanifolds self)))"

definition Product_exp ::
  "('p, 't, 'g) product \<Rightarrow> 'p list \<Rightarrow> 't list \<Rightarrow> error + 'p list" where
  "Product_exp self X U =
     list_comp
       (\<lambda>k. and_then (getitem (self_manifolds self) k) (\<lambda>man.
             and_then (getitem X k) (\<lambda>x.
             and_then (getitem U k) (\<lambda>u. exp_m man x u))))
       (range0 (self_nmanifolds self))"

definition Product_retr ::
  "('p, 't, 'g) product \<Rightarrow> 'p list \<Rightarrow> 't list \<Rightarrow> error + 'p list" where
  "Product_retr self X U =
     list_comp
       (\<lambda>k. and_then (getitem (self_manifolds self) k) (\<lambda>man.
             and_then (getitem X k) (\<lambda>x.
             and_then (getitem U k) (\<lambda>u. retr man x u))))
       (range0 (self_nmanifolds self))"

definition Product_log ::
  "('p, 't, 'g) product \<Rightarrow> 'p list \<Rightarrow> 'p list \<Rightarrow> error + 't list" where
  "Product_log self X U =
     list_comp
       (\<lambda>k. and_then (getitem (self_manifolds self) k) (\<lambda>man.
             and_then (getitem X k) (\<lambda>x.
             and_then (getitem U k) (\<lambda>u. log_m man x u))))
       (range0 (self_nmanifolds self))"

definition Product_rand :: "('p, 't, 'g) product \<Rightarrow> 'g \<Rightarrow> error + 'p list \<times> 'g" where
  "Product_rand self =
     list_comp_st
       (\<lambda>k g. and_then (getitem (self_manifolds self) k) (\<lambda>man. rand man g))
       (range0 (self_nmanifolds self))"

text \<open>
  \<^verbatim>\<open>randvec\<close> scales each child's random tangent vector by
  \<^verbatim>\<open>1/np.sqrt(self._nmanifolds)\<close>; the factor is computed inside the comprehension,
  once per child, before the child's \<^verbatim>\<open>randvec\<close> is called, and it multiplies from
  the left (the component's scalar multiplication \<open>cmul\<close>).
\<close>

definition Product_randvec ::
  "(real \<Rightarrow> 't \<Rightarrow> error + 't) \<Rightarrow> ('p, 't, 'g) product \<Rightarrow> 'p list \<Rightarrow> 'g \<Rightarrow>
   error + 't list \<times> 'g" where
  "Product_randvec cmul self X =
     list_comp_st
       (\<lambda>k g. and_then (np_sqrt (real (self_nmanifolds self))) (\<lambda>s.
               and_then (if s = 0 then Inl NotANumber else Inr (1 / s)) (\<lambda>c.
               and_then (getitem (self_manifolds self) k) (\<lambda>man.
               and_then (getitem X k) (\<lambda>x.
               and_then (randvec man x g) (\<lambda>(v, g1).
               and_then (cmul c v) (\<lambda>w. Inr (w, g1))))))))
       (range0 (self_nmanifolds self))"

definition Product_transp ::
  "('p, 't, 'g) product \<Rightarrow> 'p list \<Rightarrow> 'p list \<Rightarrow> 't list \<Rightarrow> error + 't list" where
  "Product_transp self X1 X2 G =
     list_comp
       (\<lambda>k. and_then (getitem (self_manifolds self) k) (\<lambda>man.
             and_then (getitem X1 k) (\<lambda>x1.
             and_then (getitem X2 k) (\<lambda>x2.
             and_then (getitem G k) (\<lambda>g. transp man x1 x2 g)))))
       (range0 (self_nmanifolds self))"

definition Product_pairmean ::
  "('p, 't, 'g) product \<Rightarrow> 'p list \<Rightarrow> 'p list \<Rightarrow> error + 'p list" where
  "Product_pairmean self X Y =
     list_comp
       (\<lambda>k. and_then (getitem (self_manifolds self) k) (\<lambda>man.
             and_then (getitem X k) (\<lambda>x.
             and_then (getitem Y k) (\<lambda>y. pairmean man x y))))
       (range0 (self_nmanifolds self))"

definition Product_zerovec ::
  "('p, 't, 'g) product \<Rightarrow> 'p list \<Rightarrow> error + 't list" where
  "Product_zerovec self X =
     list_comp
       (\<lambda>k. and_then (getitem (self_manifolds self) k) (\<lambda>man.
             and_then (getitem X k) (\<lambda>x. zerovec man x)))
       (range0 (self_nmanifolds self))"

section \<open>numpy: two-dimensional arrays\<close>

text \<open>
  A two-dimensional numpy array carries its shape and its entries; \<open>NDArray n k rs\<close>
  is the array of shape \<open>(n, k)\<close> whose rows are the lists \<open>rs\<close>. Entries are exact
  real or complex numbers: rounding is not modelled. A one-dimensional array is a
  list.
\<close>

datatype 'a ndarray = NDArray (nrows: nat) (ncols: nat) (rows: "'a list list")

definition has_shape :: "'a ndarray \<Rightarrow> nat \<Rightarrow> nat \<Rightarrow> bool" where
  "has_shape A n k \<longleftrightarrow>
     nrows A = n \<and> ncols A = k \<and> length (rows A) = n \<and> list_all (\<lambda>r. length r = k) (rows A)"

definition item :: "'a ndarray \<Rightarrow> nat \<Rightarrow> nat \<Rightarrow> 'a" where
  "item A i j = rows A ! i ! j"

text \<open>The array of shape \<open>(n, k)\<close> with entry \<open>f i j\<close> at \<open>[i, j]\<close>.\<close>

definition array :: "nat \<Rightarrow> nat \<Rightarrow> (nat \<Rightarrow> nat \<Rightarrow> 'a) \<Rightarrow> 'a ndarray" where
  "array n k f = NDArray n k (map (\<lambda>i. map (\<lambda>j. f i j) [0..<k]) [0..<n])"

text \<open>
  \<^verbatim>\<open>A.T\<close>, \<^verbatim>\<open>A.conj()\<close>, \<^verbatim>\<open>-A\<close>, \<^verbatim>\<open>A / 2\<close> and \<^verbatim>\<open>c * A\<close> for a scalar \<open>c\<close>.
\<close>

definition np_T :: "'a ndarray \<Rightarrow> 'a ndarray" where
  "np_T A = array (ncols A) (nrows A) (\<lambda>i j. item A j i)"

definition np_conj :: "complex ndarray \<Rightarrow> complex ndarray" where
  "np_conj A = array (nrows A) (ncols A) (\<lambda>i j. cnj (item A i j))"

definition np_negative :: "'a::uminus ndarray \<Rightarrow> 'a ndarray" where
  "np_negative A = array (nrows A) (ncols A) (\<lambda>i j. - item A i j)"

definition np_halve :: "'a::field ndarray \<Rightarrow> 'a ndarray" where
  "np_halve A = array (nrows A) (ncols A) (\<lambda>i j. item A i j / 2)"

definition np_scale :: "'a::times \<Rightarrow> 'a ndarray \<Rightarrow> 'a ndarray" where
  "np_scale c A = array (nrows A) (ncols A) (\<lambda>i j. c * item A i j)"

text \<open>
  \<^verbatim>\<open>A @ B\<close>: the matrix product, \<open>ValueError\<close> when the inner dimensions differ.
\<close>

definition np_matmul :: "'a::semiring_0 ndarray \<Rightarrow> 'a ndarray \<Rightarrow> error + 'a ndarray" where
  "np_matmul A B =
     (if ncols A \<noteq> nrows B then Inl ValueError
      else Inr (array (nrows A) (ncols B)
                  (\<lambda>i j. \<Sum>l\<leftarrow>[0..<ncols A]. item A i l * item B l j)))"

text \<open>
  Elementwise binary operators broadcast: along each axis the two extents must be
  equal or one of them must be 1 (that operand is then repeated along the axis);
  otherwise numpy raises \<open>ValueError\<close>.
\<close>

definition broadcast_dim :: "nat \<Rightarrow> nat \<Rightarrow> nat option" where
  "broadcast_dim a b =
     (if a = b then Some a else if a = 1 then Some b else if b = 1 then Some a else None)"

definition broadcast_index :: "nat \<Rightarrow> nat \<Rightarrow> nat" where
  "broadcast_index extent i = (if extent = 1 then 0 else i)"

definition np_elementwise ::
  "('a \<Rightarrow> 'b \<Rightarrow> 'c) \<Rightarrow> 'a ndarray \<Rightarrow> 'b ndarray \<Rightarrow> error + 'c ndarray" where
  "np_elementwise f A B =
     (case broadcast_dim (nrows A) (nrows B) of
        None \<Rightarrow> Inl ValueError
      | Some r \<Rightarrow>
          (case broadcast_dim (ncols A) (ncols B) of
             None \<Rightarrow> Inl ValueError
           | Some c \<Rightarrow>
               Inr (array r c
                 (\<lambda>i j. f (item A (broadcast_index (nrows A) i) (broadcast_index (ncols A) j))
                          (item B (broadcast_index (nrows B) i) (broadcast_index (ncols B) j))))))"

definition np_add :: "'a::plus ndarray \<Rightarrow> 'a ndarray \<Rightarrow> error + 'a ndarray" where
  "np_add = np_elementwise (\<lambda>x y. x + y)"

definition np_subtract :: "'a::minus ndarray \<Rightarrow> 'a ndarray \<Rightarrow> error + 'a ndarray" where
  "np_subtract = np_elementwise (\<lambda>x y. x - y)"

definition np_multiply :: "'a::times ndarray \<Rightarrow> 'a ndarray \<Rightarrow> error + 'a ndarray" where
  "np_multiply = np_elementwise (\<lambda>x y. x * y)"

text \<open>
  \<^verbatim>\<open>A / B\<close>: an entry divided by zero makes numpy store \<^verbatim>\<open>nan\<close> or \<^verbatim>\<open>inf\<close> in the
  result, which is reported as \<open>NotANumber\<close>.
\<close>

definition np_divide :: "'a::field ndarray \<Rightarrow> 'a ndarray \<Rightarrow> error + 'a ndarray" where
  "np_divide A B =
     and_then (np_elementwise (\<lambda>x y. (x, y)) A B) (\<lambda>P.
       if list_ex (list_ex (\<lambda>(x, y). y = 0)) (rows P) then Inl NotANumber
       else Inr (array (nrows P) (ncols P) (\<lambda>i j. fst (item P i j) / snd (item P i j))))"

text \<open>\<^verbatim>\<open>A / c\<close> for a scalar \<open>c\<close> computed at run time.\<close>

definition np_divide_scalar :: "'a::field ndarray \<Rightarrow> 'a \<Rightarrow> error + 'a ndarray" where
  "np_divide_scalar A c =
     (if c = 0 \<and> 0 < nrows A \<and> 0 < ncols A then Inl NotANumber
      else Inr (array (nrows A) (ncols A) (\<lambda>i j. item A i j / c)))"

text \<open>
  \<^verbatim>\<open>np.zeros((n, k))\<close>; a negative dimension is a \<open>ValueError\<close>.
\<close>

definition np_zeros :: "int \<Rightarrow> int \<Rightarrow> error + 'a::zero ndarray" where
  "np_zeros n k =
     (if n < 0 \<or> k < 0 then Inl ValueError else Inr (array (nat n) (nat k) (\<lambda>i j. 0)))"

text \<open>
  \<^verbatim>\<open>np.tensordot(U, V)\<close> with the default \<^verbatim>\<open>axes=2\<close> on two-dimensional arrays: the sum
  of the products \<open>U[i, j] * V[i, j]\<close>, with no conjugation; the shapes must be
  equal (\<open>ValueError\<close> otherwise, there is no broadcasting).
\<close>

definition np_tensordot :: "'a::semiring_0 ndarray \<Rightarrow> 'a ndarray \<Rightarrow> error + 'a" where
  "np_tensordot U V =
     (if nrows U \<noteq> nrows V \<or> ncols U \<noteq> ncols V then Inl ValueError
      else Inr (\<Sum>i\<leftarrow>[0..<nrows U]. \<Sum>j\<leftarrow>[0..<ncols U]. item U i j * item V i j))"

text \<open>
  \<^verbatim>\<open>la.norm(U, "fro")\<close>, \<^verbatim>\<open>la.norm(Y, axis=1)\<close> (the Euclidean norms of the rows, a
  one-dimensional array), \<^verbatim>\<open>A.sum(axis=1)\<close> (the row sums) and \<^verbatim>\<open>v[:, np.newaxis]\<close>
  (the one-dimensional array \<open>v\<close> as a column of shape \<open>(len(v), 1)\<close>).
\<close>

definition la_norm_fro :: "'a::real_normed_field ndarray \<Rightarrow> real" where
  "la_norm_fro U = sqrt (\<Sum>i\<leftarrow>[0..<nrows U]. \<Sum>j\<leftarrow>[0..<ncols U]. (norm (item U i j))\<^sup>2)"

definition la_norm_axis1 :: "real ndarray \<Rightarrow> real list" where
  "la_norm_axis1 Y = map (\<lambda>i. sqrt (\<Sum>j\<leftarrow>[0..<ncols Y]. (item Y i j)\<^sup>2)) [0..<nrows Y]"

definition np_sum_axis1 :: "'a::monoid_add ndarray \<Rightarrow> 'a list" where
  "np_sum_axis1 A = map (\<lambda>i. \<Sum>j\<leftarrow>[0..<ncols A]. item A i j) [0..<nrows A]"

definition newaxis_column :: "'a list \<Rightarrow> 'a ndarray" where
  "newaxis_column v = array (length v) 1 (\<lambda>i j. v ! i)"

text \<open>
  \<^verbatim>\<open>rnd.randn(n, k)\<close> draws \<open>n * k\<close> samples from the process-wide generator. The
  generator state is the sequence of samples still to come; the draw fills the array
  row by row and leaves the rest of the sequence.
\<close>

type_synonym rng = "nat \<Rightarrow> real"

definition rnd_randn :: "int \<Rightarrow> int \<Rightarrow> rng \<Rightarrow> error + real ndarray \<times> rng" where
  "rnd_randn n k g =
     (if n < 0 \<or> k < 0 then Inl ValueError
      else Inr (array (nat n) (nat k) (\<lambda>i j. g (i * nat k + j)),
                \<lambda>m. g (nat n * nat k + m)))"

text \<open>
  \<^verbatim>\<open>scipy.linalg.solve_continuous_lyapunov(A, Q)\<close> is the linear-algebra collaborator:
  it returns a solution \<open>X\<close> of \<open>A X + X A\<^sup>H = Q\<close>. In the operators below the solver
  is the parameter \<open>lyap\<close>. The two predicates say that \<open>X\<close> is a solution for real
  arrays, and that a solver returns a solution for the coefficient matrix \<open>A\<close> and
  every right-hand side of its shape.
\<close>

definition lyapunov_equation :: "real ndarray \<Rightarrow> real ndarray \<Rightarrow> real ndarray \<Rightarrow> bool" where
  "lyapunov_equation A X Q \<longleftrightarrow>
     and_then (np_matmul A X) (\<lambda>AX. and_then (np_matmul X (np_T A)) (\<lambda>XA. np_add AX XA)) = Inr Q"

definition solves_lyapunov ::
  "(real ndarray \<Rightarrow> real ndarray \<Rightarrow> error + real ndarray) \<Rightarrow> real ndarray \<Rightarrow> bool" where
  "solves_lyapunov lyap A \<longleftrightarrow>
     (\<forall>Q. has_shape Q (nrows A) (nrows A) \<longrightarrow>
        (\<exists>X. lyap A Q = Inr X \<and> has_shape X (nrows A) (nrows A) \<and> lyapunov_equation A X Q))"

text \<open>
  The solver on a diagonal coefficient matrix \<open>A\<close>, where the equation is solved entry
  by entry: \<open>X[i, j] = Q[i, j] / (A[i, i] + cj(A[j, j]))\<close> (\<open>cj\<close> is the conjugation,
  the identity on real arrays). The instance covers nothing else: a coefficient matrix that is not
  square or not diagonal, a right-hand side of another shape, or a vanishing
  denominator is reported as \<open>LinAlgError\<close>.
\<close>

definition is_diagonal :: "'a::zero ndarray \<Rightarrow> bool" where
  "is_diagonal A \<longleftrightarrow>
     nrows A = ncols A \<and>
     list_all (\<lambda>i. list_all (\<lambda>j. i = j \<or> item A i j = 0) [0..<ncols A]) [0..<nrows A]"

definition lyap_diagonal ::
  "('a \<Rightarrow> 'a) \<Rightarrow> 'a::field ndarray \<Rightarrow> 'a ndarray \<Rightarrow> error + 'a ndarray" where
  "lyap_diagonal cj A Q =
     (if is_diagonal A \<and> nrows Q = nrows A \<and> ncols Q = nrows A
         \<and> list_all (\<lambda>i. list_all (\<lambda>j. item A i i + cj (item A j j) \<noteq> 0) [0..<nrows A])
              [0..<nrows A]
      then Inr (array (nrows A) (nrows A)
                  (\<lambda>i j. item Q i j / (item A i i + cj (item A j j))))
      else Inl LinAlgError)"

section \<open>psd.py: construction\<close>

text \<open>
  \<^verbatim>\<open>str(i)\<close> of an integer, as the f-strings of the names insert it. The
  interpreter refuses to print an integer of more than 4300 decimal digits (its default
  limit) with a \<open>ValueError\<close>.
\<close>

definition digit_char :: "nat \<Rightarrow> char" where
  "digit_char d = ''0123456789'' ! d"

function str_nat :: "nat \<Rightarrow> string" where
  "str_nat n = (if n < 10 then [digit_char n] else str_nat (n div 10) @ [digit_char (n mod 10)])"
  by pat_completeness auto
termination
  by (relation "measure (\<lambda>n. n)") auto

definition str_int :: "int \<Rightarrow> error + string" where
  "str_int i =
     (if 4300 < length (str_nat (nat \<bar>i\<bar>)) then Inl ValueError
      else Inr (if i < 0 then CHR ''-'' # str_nat (nat (- i)) else str_nat (nat i)))"

text \<open>
  Floats. The dimension formulas mix integers and floats:
  \<^verbatim>\<open>int(k * n - k * (k - 1) / 2)\<close>. Every float that occurs there holds an integer
  value, so a float is represented by the integer it holds. \<open>nearest_double m\<close> is
  the IEEE double nearest to the integer \<open>m\<close>: 53 significant bits, ties to the even
  significand, and \<open>OverflowError\<close> when the result is beyond the range of a double
  (the interpreter raises it on the conversion; where float arithmetic would give an
  infinity instead, the \<^verbatim>\<open>int(...)\<close> around it raises the same exception).
  \<open>bit_length\<close> is \<^verbatim>\<open>int.bit_length\<close>.
\<close>

fun bit_length :: "nat \<Rightarrow> nat" where
  "bit_length n = (if n = 0 then 0 else Suc (bit_length (n div 2)))"

declare bit_length.simps [simp del]

definition round_half_even :: "nat \<Rightarrow> nat \<Rightarrow> nat" where
  "round_half_even a s =
     (if 2 ^ (s - 1) < a mod 2 ^ s \<or> (a mod 2 ^ s = 2 ^ (s - 1) \<and> odd (a div 2 ^ s))
      then (a div 2 ^ s + 1) * 2 ^ s
      else (a div 2 ^ s) * 2 ^ s)"

definition nearest_double :: "int \<Rightarrow> error + int" where
  "nearest_double m =
     (let a = nat \<bar>m\<bar>;
          r = (if bit_length a \<le> 53 then a else round_half_even a (bit_length a - 53))
      in if 2 ^ 1024 \<le> r then Inl OverflowError
         else Inr (if m < 0 then - int r else int r))"

text \<open>
  \<^verbatim>\<open>x / 2\<close> for an even integer \<open>x\<close> (true division: the double nearest to the
  quotient), and \<^verbatim>\<open>i - f\<close> for an integer \<open>i\<close> and a float \<open>f\<close> (the integer is
  converted to a float, then the difference is rounded). \<^verbatim>\<open>int(f)\<close> of a float that
  holds an integer is that integer.
\<close>

definition half_as_float :: "int \<Rightarrow> error + int" where
  "half_as_float x = nearest_double (x div 2)"

definition int_minus_float :: "int \<Rightarrow> int \<Rightarrow> error + int" where
  "int_minus_float i f = and_then (nearest_double i) (\<lambda>a. nearest_double (a - f))"

text \<open>
  Modelled from the spec: the initialiser of the base class \<^verbatim>\<open>Manifold\<close>
  (pymanopt/manifolds/manifold.py is not among the sources). The spec gives a manifold
  the attributes \<^verbatim>\<open>name\<close> and \<^verbatim>\<open>dim\<close>, fixed at construction, and describes no
  check: the initialiser stores the two values it is given.
\<close>

record manifold_base =
  base_name :: string
  base_dim :: int

definition Manifold_init :: "string \<Rightarrow> int \<Rightarrow> error + manifold_base" where
  "Manifold_init nm dimension = Inr \<lparr> base_name = nm, base_dim = dimension \<rparr>"

text \<open>
  An instance of \<^verbatim>\<open>_PSDFixedRank\<close> or of \<^verbatim>\<open>Elliptope\<close>: the attributes \<^verbatim>\<open>_n\<close> and
  \<^verbatim>\<open>_k\<close>, and what the base initialiser made. In the constructors the base
  initialiser is the parameter \<open>super_init\<close>, so that nothing is assumed about it;
  the prefix \<open>U_\<close> stands for the leading underscore of \<^verbatim>\<open>_PSDFixedRank\<close>.
\<close>

record 'm shaped_manifold =
  self_base :: 'm
  self_n :: int
  self_k :: int

definition U_PSDFixedRank_init ::
  "(string \<Rightarrow> int \<Rightarrow> error + 'm) \<Rightarrow> int \<Rightarrow> int \<Rightarrow> string \<Rightarrow> int \<Rightarrow> error + 'm shaped_manifold" where
  "U_PSDFixedRank_init super_init n k nm dimension =
     and_then (super_init nm dimension) (\<lambda>b. Inr \<lparr> self_base = b, self_n = n, self_k = k \<rparr>)"

definition PSDFixedRank_name :: "int \<Rightarrow> int \<Rightarrow> error + string" where
  "PSDFixedRank_name n k =
     and_then (str_int n) (\<lambda>sn. and_then (str_int k) (\<lambda>sk.
       Inr (''Quotient manifold of '' @ sn @ ''x'' @ sn @ '' psd matrices of rank '' @ sk)))"

text \<open>
  \<^verbatim>\<open>int(k * n - k * (k - 1) / 2)\<close>: the product \<open>k * (k - 1)\<close> of two consecutive
  integers is even.
\<close>

definition PSDFixedRank_dimension :: "int \<Rightarrow> int \<Rightarrow> error + int" where
  "PSDFixedRank_dimension n k =
     and_then (half_as_float (k * (k - 1))) (\<lambda>h. int_minus_float (k * n) h)"

definition PSDFixedRank_init ::
  "(string \<Rightarrow> int \<Rightarrow> error + 'm) \<Rightarrow> int \<Rightarrow> int \<Rightarrow> error + 'm shaped_manifold" where
  "PSDFixedRank_init super_init n k =
     and_then (PSDFixedRank_name n k) (\<lambda>nm.
     and_then (PSDFixedRank_dimension n k) (\<lambda>dimension.
     U_PSDFixedRank_init super_init n k nm dimension))"

definition PSDFixedRankComplex_name :: "int \<Rightarrow> int \<Rightarrow> error + string" where
  "PSDFixedRankComplex_name n k =
     and_then (str_int n) (\<lambda>sn. and_then (str_int k) (\<lambda>sk.
       Inr (''Quotient manifold of Hermitian '' @ sn @ ''x'' @ sn @ '' matrices of rank '' @ sk)))"

definition PSDFixedRankComplex_dimension :: "int \<Rightarrow> int \<Rightarrow> int" where
  "PSDFixedRankComplex_dimension n k = 2 * k * n - k * k"

definition PSDFixedRankComplex_init ::
  "(string \<Rightarrow> int \<Rightarrow> error + 'm) \<Rightarrow> int \<Rightarrow> int \<Rightarrow> error + 'm shaped_manifold" where
  "PSDFixedRankComplex_init super_init n k =
     and_then (PSDFixedRankComplex_name n k) (\<lambda>nm.
     U_PSDFixedRank_init super_init n k nm (PSDFixedRankComplex_dimension n k))"

definition Elliptope_name :: "int \<Rightarrow> int \<Rightarrow> error + string" where
  "Elliptope_name n k =
     and_then (str_int n) (\<lambda>sn. and_then (str_int k) (\<lambda>sk.
       Inr (''Quotient manifold of '' @ sn @ ''x'' @ sn @ '' psd matrices of rank '' @ sk
            @ '' with unit diagonal elements'')))"

definition Elliptope_dimension :: "int \<Rightarrow> int \<Rightarrow> error + int" where
  "Elliptope_dimension n k =
     and_then (half_as_float (k * (k - 1))) (\<lambda>h. int_minus_float (n * (k - 1)) h)"

definition Elliptope_init ::
  "(string \<Rightarrow> int \<Rightarrow> error + 'm) \<Rightarrow> int \<Rightarrow> int \<Rightarrow> error + 'm shaped_manifold" where
  "Elliptope_init super_init n k =
     and_then (Elliptope_name n k) (\<lambda>nm.
     and_then (Elliptope_dimension n k) (\<lambda>dimension.
     and_then (super_init nm dimension) (\<lambda>b. Inr \<lparr> self_base = b, self_n = n, self_k = k \<rparr>)))"

text \<open>
  The requirement of the spec on the shape parameters, which the constructors are
  compared with.
\<close>

definition valid_parameters :: "int \<Rightarrow> int \<Rightarrow> bool" where
  "valid_parameters n k \<longleftrightarrow> k \<le> n \<and> 1 \<le> k \<and> 1 \<le> n"

section \<open>psd.py: the operators of \<^verbatim>\<open>_PSDFixedRank\<close> and its subclasses\<close>

text \<open>
  The methods of \<^verbatim>\<open>_PSDFixedRank\<close> are inherited unchanged by \<^verbatim>\<open>PSDFixedRank\<close> (real
  arrays) and, but for \<^verbatim>\<open>inner\<close>, \<^verbatim>\<open>norm\<close> and \<^verbatim>\<open>rand\<close>, by
  \<^verbatim>\<open>PSDFixedRankComplex\<close> (complex arrays); they are polymorphic in the entries. A
  method that calls \<^verbatim>\<open>self.norm\<close> or \<^verbatim>\<open>self.rand\<close> reaches the subclass's method:
  those are the parameters \<open>self_norm\<close> and \<open>self_rand\<close>.
\<close>

definition U_PSDFixedRank_typicaldist :: "'m shaped_manifold \<Rightarrow> int" where
  "U_PSDFixedRank_typicaldist self = 10 + self_k self"

definition U_PSDFixedRank_inner ::
  "real ndarray \<Rightarrow> real ndarray \<Rightarrow> real ndarray \<Rightarrow> error + real" where
  "U_PSDFixedRank_inner Y U V = np_tensordot U V"

definition U_PSDFixedRank_norm :: "'b \<Rightarrow> 'a::real_normed_field ndarray \<Rightarrow> error + real" where
  "U_PSDFixedRank_norm Y U = Inr (la_norm_fro U)"

definition U_PSDFixedRank_proj ::
  "('a ndarray \<Rightarrow> 'a ndarray \<Rightarrow> error + 'a ndarray) \<Rightarrow>
   'a::ring ndarray \<Rightarrow> 'a ndarray \<Rightarrow> error + 'a ndarray" where
  "U_PSDFixedRank_proj lyap Y H =
     and_then (np_matmul (np_T Y) Y) (\<lambda>YtY.
     and_then (np_matmul (np_T Y) H) (\<lambda>YtH.
     and_then (np_matmul (np_T H) Y) (\<lambda>HtY.
     and_then (np_subtract YtH HtY) (\<lambda>AS.
     and_then (lyap YtY AS) (\<lambda>Omega.
     and_then (np_matmul Y Omega) (\<lambda>YOmega.
     np_subtract H YOmega))))))"

definition U_PSDFixedRank_egrad2rgrad :: "'a ndarray \<Rightarrow> 'a ndarray \<Rightarrow> error + 'a ndarray" where
  "U_PSDFixedRank_egrad2rgrad Y egrad = Inr egrad"

definition U_PSDFixedRank_ehess2rhess ::
  "('a ndarray \<Rightarrow> 'a ndarray \<Rightarrow> error + 'a ndarray) \<Rightarrow>
   'a::ring ndarray \<Rightarrow> 'a ndarray \<Rightarrow> 'a ndarray \<Rightarrow> 'a ndarray \<Rightarrow> error + 'a ndarray" where
  "U_PSDFixedRank_ehess2rhess lyap Y egrad ehess U = U_PSDFixedRank_proj lyap Y ehess"

definition U_PSDFixedRank_retr :: "'a::plus ndarray \<Rightarrow> 'a ndarray \<Rightarrow> error + 'a ndarray" where
  "U_PSDFixedRank_retr Y U = np_add Y U"

definition U_PSDFixedRank_rand :: "'m shaped_manifold \<Rightarrow> rng \<Rightarrow> error + real ndarray \<times> rng" where
  "U_PSDFixedRank_rand self g = rnd_randn (self_n self) (self_k self) g"

definition U_PSDFixedRank_normalize ::
  "('a ndarray \<Rightarrow> error + real) \<Rightarrow> 'a::real_normed_field ndarray \<Rightarrow> error + 'a ndarray" where
  "U_PSDFixedRank_normalize self_norm Y =
     and_then (self_norm Y) (\<lambda>nrm. np_divide_scalar Y (of_real nrm))"

definition U_PSDFixedRank_randvec ::
  "(rng \<Rightarrow> error + 'a ndarray \<times> rng) \<Rightarrow> ('a ndarray \<Rightarrow> error + real) \<Rightarrow>
   ('a ndarray \<Rightarrow> 'a ndarray \<Rightarrow> error + 'a ndarray) \<Rightarrow>
   'a::real_normed_field ndarray \<Rightarrow> rng \<Rightarrow> error + 'a ndarray \<times> rng" where
  "U_PSDFixedRank_randvec self_rand self_norm lyap Y g =
     and_then (self_rand g) (\<lambda>(H, g1).
     and_then (U_PSDFixedRank_proj lyap Y H) (\<lambda>P.
     and_then (U_PSDFixedRank_normalize self_norm P) (\<lambda>V. Inr (V, g1))))"

definition U_PSDFixedRank_transp ::
  "('a ndarray \<Rightarrow> 'a ndarray \<Rightarrow> error + 'a ndarray) \<Rightarrow>
   'a::ring ndarray \<Rightarrow> 'a ndarray \<Rightarrow> 'a ndarray \<Rightarrow> error + 'a ndarray" where
  "U_PSDFixedRank_transp lyap Y Z U = U_PSDFixedRank_proj lyap Z U"

definition U_PSDFixedRank_zerovec :: "'m shaped_manifold \<Rightarrow> 'b \<Rightarrow> error + real ndarray" where
  "U_PSDFixedRank_zerovec self X = np_zeros (self_n self) (self_k self)"

text \<open>\<^verbatim>\<open>PSDFixedRank\<close> adds the constructor only: its operators are the inherited ones.\<close>

definition PSDFixedRank_proj ::
  "(real ndarray \<Rightarrow> real ndarray \<Rightarrow> error + real ndarray) \<Rightarrow>
   real ndarray \<Rightarrow> real ndarray \<Rightarrow> error + real ndarray" where
  "PSDFixedRank_proj = U_PSDFixedRank_proj"

definition PSDFixedRank_retr :: "real ndarray \<Rightarrow> real ndarray \<Rightarrow> error + real ndarray" where
  "PSDFixedRank_retr = U_PSDFixedRank_retr"

definition PSDFixedRank_zerovec :: "'m shaped_manifold \<Rightarrow> 'b \<Rightarrow> error + real ndarray" where
  "PSDFixedRank_zerovec = U_PSDFixedRank_zerovec"

text \<open>
  \<^verbatim>\<open>PSDFixedRankComplex\<close> overrides \<^verbatim>\<open>inner\<close>, \<^verbatim>\<open>norm\<close> and \<^verbatim>\<open>rand\<close>. Its
  \<^verbatim>\<open>zerovec\<close> is the inherited one, an array of real zeros; in \<^verbatim>\<open>Y + U\<close> numpy
  converts a real array to complex entries (\<open>as_complex\<close>).
\<close>

definition as_complex :: "real ndarray \<Rightarrow> complex ndarray" where
  "as_complex A = array (nrows A) (ncols A) (\<lambda>i j. complex_of_real (item A i j))"

definition PSDFixedRankComplex_inner ::
  "'b \<Rightarrow> complex ndarray \<Rightarrow> complex ndarray \<Rightarrow> error + real" where
  "PSDFixedRankComplex_inner Y U V = and_then (np_tensordot U V) (\<lambda>t. Inr (2 * Re t))"

definition PSDFixedRankComplex_norm :: "'b \<Rightarrow> complex ndarray \<Rightarrow> error + real" where
  "PSDFixedRankComplex_norm Y U = and_then (PSDFixedRankComplex_inner Y U U) np_sqrt"

definition PSDFixedRankComplex_rand ::
  "'m shaped_manifold \<Rightarrow> rng \<Rightarrow> error + complex ndarray \<times> rng" where
  "PSDFixedRankComplex_rand self g =
     and_then (U_PSDFixedRank_rand self g) (\<lambda>(A, g1).
     and_then (U_PSDFixedRank_rand self g1) (\<lambda>(B, g2).
     and_then (np_add (as_complex A) (np_scale \<i> (as_complex B))) (\<lambda>Z. Inr (Z, g2))))"

text \<open>
  \<^verbatim>\<open>dist\<close> aligns \<open>U\<close> with \<open>V\<close> through the singular value decomposition of
  \<^verbatim>\<open>V.T.conj() @ U\<close>; \<^verbatim>\<open>la.svd\<close> is the collaborator's, the parameter \<open>svd\<close>,
  which returns the two unitary factors and the singular values.
\<close>

definition PSDFixedRankComplex_dist ::
  "(complex ndarray \<Rightarrow> error + complex ndarray \<times> real list \<times> complex ndarray) \<Rightarrow>
   complex ndarray \<Rightarrow> complex ndarray \<Rightarrow> error + real" where
  "PSDFixedRankComplex_dist svd U V =
     and_then (np_matmul (np_conj (np_T V)) U) (\<lambda>M.
     and_then (svd M) (\<lambda>(S, sigma, D).
     and_then (np_matmul V S) (\<lambda>VS.
     and_then (np_matmul VS D) (\<lambda>VSD.
     and_then (np_subtract U VSD) (\<lambda>E.
     and_then (PSDFixedRankComplex_inner () E E) (\<lambda>r. Inr (r / 2)))))))"

definition PSDFixedRankComplex_proj ::
  "(complex ndarray \<Rightarrow> complex ndarray \<Rightarrow> error + complex ndarray) \<Rightarrow>
   complex ndarray \<Rightarrow> complex ndarray \<Rightarrow> error + complex ndarray" where
  "PSDFixedRankComplex_proj = U_PSDFixedRank_proj"

definition PSDFixedRankComplex_retr ::
  "complex ndarray \<Rightarrow> complex ndarray \<Rightarrow> error + complex ndarray" where
  "PSDFixedRankComplex_retr = U_PSDFixedRank_retr"

definition PSDFixedRankComplex_zerovec ::
  "'m shaped_manifold \<Rightarrow> 'b \<Rightarrow> error + complex ndarray" where
  "PSDFixedRankComplex_zerovec self X =
     and_then (U_PSDFixedRank_zerovec self X) (\<lambda>Z. Inr (as_complex Z))"

text \<open>
  What claims C1 and C3 say of the complex manifold, in their words: the metric is
  the doubled real part of \<open>trace(U\<^sup>* V)\<close>, and the projection is formed with
  conjugate transposes.
\<close>

definition hermitian_metric :: "complex ndarray \<Rightarrow> complex ndarray \<Rightarrow> error + real" where
  "hermitian_metric U V =
     and_then (np_matmul (np_conj (np_T U)) V) (\<lambda>UhV.
       Inr (2 * Re (\<Sum>j\<leftarrow>[0..<nrows UhV]. item UhV j j)))"

definition hermitian_proj ::
  "(complex ndarray \<Rightarrow> complex ndarray \<Rightarrow> error + complex ndarray) \<Rightarrow>
   complex ndarray \<Rightarrow> complex ndarray \<Rightarrow> error + complex ndarray" where
  "hermitian_proj lyap Y H =
     and_then (np_matmul (np_conj (np_T Y)) Y) (\<lambda>YtY.
     and_then (np_matmul (np_conj (np_T Y)) H) (\<lambda>YtH.
     and_then (np_matmul (np_conj (np_T H)) Y) (\<lambda>HtY.
     and_then (np_subtract YtH HtY) (\<lambda>AS.
     and_then (lyap YtY AS) (\<lambda>Omega.
     and_then (np_matmul Y Omega) (\<lambda>YOmega.
     np_subtract H YOmega))))))"

section \<open>psd.py: the operators of \<^verbatim>\<open>Elliptope\<close>\<close>

definition Elliptope_typicaldist :: "'m shaped_manifold \<Rightarrow> int" where
  "Elliptope_typicaldist self = 10 * self_k self"

definition Elliptope_inner ::
  "real ndarray \<Rightarrow> real ndarray \<Rightarrow> real ndarray \<Rightarrow> error + real" where
  "Elliptope_inner Y U V = np_tensordot U V"

definition Elliptope_norm :: "real ndarray \<Rightarrow> real ndarray \<Rightarrow> error + real" where
  "Elliptope_norm Y U = and_then (Elliptope_inner Y U U) np_sqrt"

definition Elliptope_normalize_rows :: "real ndarray \<Rightarrow> error + real ndarray" where
  "Elliptope_normalize_rows Y = np_divide Y (newaxis_column (la_norm_axis1 Y))"

definition Elliptope_project_rows :: "real ndarray \<Rightarrow> real ndarray \<Rightarrow> error + real ndarray" where
  "Elliptope_project_rows Y H =
     and_then (np_multiply Y H) (\<lambda>YH.
     and_then (np_multiply Y (newaxis_column (np_sum_axis1 YH))) (\<lambda>Yi.
     np_subtract H Yi))"

definition Elliptope_proj ::
  "(real ndarray \<Rightarrow> real ndarray \<Rightarrow> error + real ndarray) \<Rightarrow>
   real ndarray \<Rightarrow> real ndarray \<Rightarrow> error + real ndarray" where
  "Elliptope_proj lyap Y H =
     and_then (Elliptope_project_rows Y H) (\<lambda>eta.
     and_then (np_matmul (np_T Y) Y) (\<lambda>YtY.
     and_then (np_matmul (np_T Y) eta) (\<lambda>Yteta.
     and_then (np_matmul (np_T H) Y) (\<lambda>HtY.
     and_then (np_subtract Yteta HtY) (\<lambda>AS.
     and_then (lyap YtY (np_negative AS)) (\<lambda>Omega.
     and_then (np_subtract Omega (np_T Omega)) (\<lambda>D.
     and_then (np_matmul Y D) (\<lambda>YD.
     np_subtract eta (np_halve YD)))))))))"

definition Elliptope_retr :: "real ndarray \<Rightarrow> real ndarray \<Rightarrow> error + real ndarray" where
  "Elliptope_retr Y U = and_then (np_add Y U) Elliptope_normalize_rows"

definition Elliptope_egrad2rgrad :: "real ndarray \<Rightarrow> real ndarray \<Rightarrow> error + real ndarray" where
  "Elliptope_egrad2rgrad Y egrad = Elliptope_project_rows Y egrad"

definition Elliptope_ehess2rhess ::
  "(real ndarray \<Rightarrow> real ndarray \<Rightarrow> error + real ndarray) \<Rightarrow>
   real ndarray \<Rightarrow> real ndarray \<Rightarrow> real ndarray \<Rightarrow> real ndarray \<Rightarrow> error + real ndarray" where
  "Elliptope_ehess2rhess lyap Y egrad ehess U =
     and_then (np_multiply egrad Y) (\<lambda>eY.
     and_then (np_multiply U (newaxis_column (np_sum_axis1 eY))) (\<lambda>Us.
     and_then (np_subtract ehess Us) (\<lambda>hess.
     and_then (np_multiply U egrad) (\<lambda>Ue.
     and_then (np_multiply Y ehess) (\<lambda>Yh.
     and_then (np_add Ue Yh) (\<lambda>S.
     and_then (np_multiply Y (newaxis_column (np_sum_axis1 S))) (\<lambda>Ys.
     and_then (np_subtract hess Ys) (\<lambda>hess2.
     Elliptope_proj lyap Y hess2))))))))"

definition Elliptope_rand :: "'m shaped_manifold \<Rightarrow> rng \<Rightarrow> error + real ndarray \<times> rng" where
  "Elliptope_rand self g =
     and_then (rnd_randn (self_n self) (self_k self) g) (\<lambda>(R, g1).
     and_then (Elliptope_normalize_rows R) (\<lambda>Y. Inr (Y, g1)))"

definition Elliptope_randvec ::
  "(real ndarray \<Rightarrow> real ndarray \<Rightarrow> error + real ndarray) \<Rightarrow>
   'm shaped_manifold \<Rightarrow> real ndarray \<Rightarrow> rng \<Rightarrow> error + real ndarray \<times> rng" where
  "Elliptope_randvec lyap self Y g =
     and_then (Elliptope_rand self g) (\<lambda>(R, g1).
     and_then (Elliptope_proj lyap Y R) (\<lambda>H.
     and_then (Elliptope_norm Y H) (\<lambda>nrm.
     and_then (np_divide_scalar H nrm) (\<lambda>V. Inr (V, g1)))))"

definition Elliptope_transp ::
  "(real ndarray \<Rightarrow> real ndarray \<Rightarrow> error + real ndarray) \<Rightarrow>
   real ndarray \<Rightarrow> real ndarray \<Rightarrow> real ndarray \<Rightarrow> error + real ndarray" where
  "Elliptope_transp lyap Y Z U = Elliptope_proj lyap Z U"

definition Elliptope_zerovec :: "'m shaped_manifold \<Rightarrow> 'b \<Rightarrow> error + real ndarray" where
  "Elliptope_zerovec self X = np_zeros (self_n self) (self_k self)"

section \<open>The manifolds of psd.py as children of a product\<close>

text \<open>
  Modelled from the spec: the operators \<^verbatim>\<open>PSDFixedRank\<close> and \<^verbatim>\<open>Elliptope\<close> do
  not define themselves and inherit from \<^verbatim>\<open>Manifold\<close> and \<^verbatim>\<open>RetrAsExpMixin\<close>
  (manifold.py is not among the sources). The spec has \<^verbatim>\<open>exp\<close> forward to
  \<^verbatim>\<open>retr\<close> for a manifold with the mixin, and \<^verbatim>\<open>dist\<close>, \<^verbatim>\<open>log\<close> and
  \<^verbatim>\<open>pairmean\<close> exist only where a manifold defines them: here they raise
  \<open>NotImplementedError\<close>. The attributes \<^verbatim>\<open>name\<close> and \<^verbatim>\<open>dim\<close> are those the base
  initialiser stored.
\<close>

definition PSDFixedRank_manifold ::
  "(real ndarray \<Rightarrow> real ndarray \<Rightarrow> error + real ndarray) \<Rightarrow>
   manifold_base shaped_manifold \<Rightarrow> (real ndarray, real ndarray, rng) manifold" where
  "PSDFixedRank_manifold lyap self =
     \<lparr> name = base_name (self_base self),
       dim = base_dim (self_base self),
       typicaldist = real_of_int (U_PSDFixedRank_typicaldist self),
       inner = U_PSDFixedRank_inner,
       norm_m = U_PSDFixedRank_norm,
       dist_m = (\<lambda>X Y. Inl NotImplementedError),
       proj = PSDFixedRank_proj lyap,
       egrad2rgrad = U_PSDFixedRank_egrad2rgrad,
       ehess2rhess = U_PSDFixedRank_ehess2rhess lyap,
       exp_m = PSDFixedRank_retr,
       retr = PSDFixedRank_retr,
       log_m = (\<lambda>X Y. Inl NotImplementedError),
       rand = U_PSDFixedRank_rand self,
       randvec = U_PSDFixedRank_randvec (U_PSDFixedRank_rand self) (U_PSDFixedRank_norm ()) lyap,
       transp = U_PSDFixedRank_transp lyap,
       pairmean = (\<lambda>X Y. Inl NotImplementedError),
       zerovec = PSDFixedRank_zerovec self \<rparr>"

definition Elliptope_manifold ::
  "(real ndarray \<Rightarrow> real ndarray \<Rightarrow> error + real ndarray) \<Rightarrow>
   manifold_base shaped_manifold \<Rightarrow> (real ndarray, real ndarray, rng) manifold" where
  "Elliptope_manifold lyap self =
     \<lparr> name = base_name (self_base self),
       dim = base_dim (self_base self),
       typicaldist = real_of_int (Elliptope_typicaldist self),
       inner = Elliptope_inner,
       norm_m = Elliptope_norm,
       dist_m = (\<lambda>X Y. Inl NotImplementedError),
       proj = Elliptope_proj lyap,
       egrad2rgrad = Elliptope_egrad2rgrad,
       ehess2rhess = Elliptope_ehess2rhess lyap,
       exp_m = Elliptope_retr,
       retr = Elliptope_retr,
       log_m = (\<lambda>X Y. Inl NotImplementedError),
       rand = Elliptope_rand self,
       randvec = Elliptope_randvec lyap self,
       transp = Elliptope_transp lyap,
       pairmean = (\<lambda>X Y. Inl NotImplementedError),
       zerovec = Elliptope_zerovec self \<rparr>"

text \<open>
  A valid point of a manifold with shape parameters \<open>(n, k)\<close> is an array of that
  shape.
\<close>

definition is_point :: "'m shaped_manifold \<Rightarrow> 'a ndarray \<Rightarrow> bool" where
  "is_point self Y \<longleftrightarrow>
     0 \<le> self_n self \<and> 0 \<le> self_k self \<and>
     has_shape Y (nat (self_n self)) (nat (self_k self))"

text \<open>
  The properties the claims speak of: every row of \<open>Y\<close> has Euclidean norm 1; every
  row of \<open>U\<close> is orthogonal to the row of \<open>Y\<close> with the same index (\<open>U\<close> is tangent
  to the row spheres at \<open>Y\<close>); no row of \<open>R\<close> is zero; the columns of \<open>Y\<close> are
  linearly independent (\<open>Y\<close> has full rank \<open>k\<close>).
\<close>

definition unit_rows :: "real ndarray \<Rightarrow> bool" where
  "unit_rows Y \<longleftrightarrow> list_all (\<lambda>x. x = 1) (la_norm_axis1 Y)"

definition rows_orthogonal :: "real ndarray \<Rightarrow> real ndarray \<Rightarrow> bool" where
  "rows_orthogonal Y U \<longleftrightarrow>
     list_all (\<lambda>i. (\<Sum>j\<leftarrow>[0..<ncols Y]. item Y i j * item U i j) = 0) [0..<nrows Y]"

definition nonzero_rows :: "real ndarray \<Rightarrow> bool" where
  "nonzero_rows R \<longleftrightarrow> list_all (\<lambda>x. x \<noteq> 0) (la_norm_axis1 R)"

definition full_column_rank :: "real ndarray \<Rightarrow> bool" where
  "full_column_rank Y \<longleftrightarrow>
     (\<forall>v. (\<forall>i<nrows Y. (\<Sum>j\<leftarrow>[0..<ncols Y]. item Y i j * v j) = 0) \<longrightarrow> (\<forall>j<ncols Y. v j = 0))"

section \<open>Properties of the tangent-vector value type\<close>

lemma and_then_Inr [simp]: "and_then (Inr v) f = f v"
  by (simp add: and_then_def)

lemma and_then_Inl [simp]: "and_then (Inl e) f = Inl e"
  by (simp add: and_then_def)

lemma getitem_nth: "k < length xs \<Longrightarrow> getitem xs (int k) = Inr (xs ! k)"
  by (simp add: getitem_def)

lemma list_comp_Inr_iff:
  "list_comp f xs = Inr ys \<longleftrightarrow> list_all2 (\<lambda>x y. f x = Inr y) xs ys"
proof (induction xs arbitrary: ys)
  case Nil
  then show ?case by auto
next
  case (Cons x xs)
  show ?case
  proof (cases ys)
    case Nil
    then show ?thesis by (simp split: sum.splits)
  next
    case (Cons y ys')
    then show ?thesis using Cons.IH [of ys'] by (auto split: sum.splits)
  qed
qed


lemma list_comp_map:
  "(\<And>x. x \<in> set xs \<Longrightarrow> f x = Inr (g x)) \<Longrightarrow> list_comp f xs = Inr (map g xs)"
  by (induction xs) auto

lemma list_comp_range0:
  "(\<And>k. k < n \<Longrightarrow> f (int k) = Inr (g k)) \<Longrightarrow> list_comp f (range0 n) = Inr (map g [0..<n])"
proof -
  assume h: "\<And>k. k < n \<Longrightarrow> f (int k) = Inr (g k)"
  have "list_comp f (map int [0..<n]) = Inr (map (\<lambda>i. g (nat i)) (map int [0..<n]))"
    by (rule list_comp_map) (auto simp: h)
  then show ?thesis by (simp add: range0_def comp_def)
qed

text \<open>
  The method \<^verbatim>\<open>__div__\<close>, when it is called by name, divides every component: the
  behaviour the class was written for.
\<close>

lemma TangentVector_div_components:
  "(\<And>v. v \<in> set G \<Longrightarrow> cdiv v c = Inr (q v)) \<Longrightarrow> TangentVector_div cdiv G c = Inr (map q G)"
  by (simp add: TangentVector_div_def list_comp_map)

text \<open>
  Claim C4 (the expression \<^verbatim>\<open>G / c\<close> gives the tangent vector of the components
  \<^verbatim>\<open>G[i] / c\<close>). The code does not do this: for every tangent vector \<open>G\<close> and every
  Python number \<open>c\<close> the expression raises \<open>TypeError\<close>, because the class defines
  the Python 2 method \<^verbatim>\<open>__div__\<close> and not \<^verbatim>\<open>__truediv__\<close>.
\<close>

theorem TangentVector_truediv_raises_TypeError:
  "TangentVector_truediv_expr cmul cdiv G c = Inl TypeError"
  by (simp add: TangentVector_truediv_expr_def TangentVector_scalar_method_def)








section \<open>Properties of the product manifold\<close>

lemma wrap_int64_id: "in_int64 x \<Longrightarrow> wrap_int64 x = x"
  by (simp add: in_int64_def wrap_int64_def)

text \<open>
  Claim C8, as amended. For the product of two children \<open>A\<close> and \<open>B\<close> whose
  dimensions lie in the range of a signed 64-bit integer, \<^verbatim>\<open>dim\<close> is the sum of the
  children's dimensions wrapped into that range, hence their sum when the sum lies in
  the range too. \<^verbatim>\<open>inner(X, G, H)\<close> on index-aligned arguments \<^verbatim>\<open>X = [x0, x1]\<close>,
  \<^verbatim>\<open>G = [g0, g1]\<close>, \<^verbatim>\<open>H = [h0, h1]\<close> is
  \<^verbatim>\<open>A.inner(x0, g0, h0) + B.inner(x1, g1, h1)\<close>: the children are called in that
  order and an exception of a child leaves the product's \<^verbatim>\<open>inner\<close>.
\<close>

theorem Product_two_dim_inner:
  "(in_int64 (dim A) \<and> in_int64 (dim B) \<longrightarrow>
      Product_dim (Product_init [A, B]) = Some (wrap_int64 (dim A + dim B))) \<and>
   (in_int64 (dim A) \<and> in_int64 (dim B) \<and> in_int64 (dim A + dim B) \<longrightarrow>
      Product_dim (Product_init [A, B]) = Some (dim A + dim B)) \<and>
   Product_inner (Product_init [A, B]) [x0, x1] [g0, g1] [h0, h1] =
     and_then (inner A x0 g0 h0) (\<lambda>a. and_then (inner B x1 g1 h1) (\<lambda>b. Inr (a + b)))"
  by (simp add: Product_dim_def Product_init_def Product_inner_def np_sum_def np_sum_int_def
      wrap_int64_id range0_def getitem_def and_then_def upt_rec split: sum.splits)


theorem Product_two_dim_inner_witness:
  "in_int64 9 \<and> in_int64 4 \<and> in_int64 (9 + 4) \<and>
   Product_dim
     (Product_init
        [PSDFixedRank_manifold (lyap_diagonal id)
           \<lparr> self_base = \<lparr> base_name = ''Quotient manifold of 5x5 psd matrices of rank 2'',
                                base_dim = 9 \<rparr>, self_n = 5, self_k = 2 \<rparr>,
         Elliptope_manifold (lyap_diagonal id)
           \<lparr> self_base = \<lparr> base_name =
                ''Quotient manifold of 5x5 psd matrices of rank 2 with unit diagonal elements'',
                                base_dim = 4 \<rparr>, self_n = 5, self_k = 2 \<rparr>])
     = Some 13"
proof -
  let ?A = "PSDFixedRank_manifold (lyap_diagonal id)
           \<lparr> self_base = \<lparr> base_name = ''Quotient manifold of 5x5 psd matrices of rank 2'',
                                base_dim = 9 \<rparr>, self_n = 5, self_k = 2 \<rparr>"
  let ?B = "Elliptope_manifold (lyap_diagonal id)
           \<lparr> self_base = \<lparr> base_name =
                ''Quotient manifold of 5x5 psd matrices of rank 2 with unit diagonal elements'',
                                base_dim = 4 \<rparr>, self_n = 5, self_k = 2 \<rparr>"
  have dA: "dim ?A = 9" and dB: "dim ?B = 4"
    by (simp_all add: PSDFixedRank_manifold_def Elliptope_manifold_def)
  have r: "in_int64 9 \<and> in_int64 4 \<and> in_int64 (9 + 4)"
    by (simp add: in_int64_def)
  note c = Product_two_dim_inner [of ?A ?B, THEN conjunct2, THEN conjunct1]
  have "Product_dim (Product_init [?A, ?B]) = Some (dim ?A + dim ?B)"
    using c r unfolding dA dB by blast
  then show ?thesis using r by (simp add: dA dB)
qed

text \<open>
  Claim C8 as stated fails: for two children of dimension \<open>2\<^sup>6\<^sup>2\<close> the product's
  \<^verbatim>\<open>dim\<close> is \<open>- 2\<^sup>6\<^sup>3\<close>, not the sum \<open>2\<^sup>6\<^sup>3\<close>.
\<close>

theorem Product_dim_wraps:
  "dim (PSDFixedRank_manifold (lyap_diagonal id)
          \<lparr> self_base = \<lparr> base_name = ''M'', base_dim = 2 ^ 62 \<rparr>,
            self_n = 2 ^ 62, self_k = 1 \<rparr>)
     + dim (PSDFixedRank_manifold (lyap_diagonal id)
          \<lparr> self_base = \<lparr> base_name = ''M'', base_dim = 2 ^ 62 \<rparr>,
            self_n = 2 ^ 62, self_k = 1 \<rparr>) = 2 ^ 63 \<and>
   Product_dim
     (Product_init
        [PSDFixedRank_manifold (lyap_diagonal id)
           \<lparr> self_base = \<lparr> base_name = ''M'', base_dim = 2 ^ 62 \<rparr>,
             self_n = 2 ^ 62, self_k = 1 \<rparr>,
         PSDFixedRank_manifold (lyap_diagonal id)
           \<lparr> self_base = \<lparr> base_name = ''M'', base_dim = 2 ^ 62 \<rparr>,
             self_n = 2 ^ 62, self_k = 1 \<rparr>])
     = Some (- (2 ^ 63))"
  by (simp add: Product_dim_def Product_init_def np_sum_int_def in_int64_def wrap_int64_def
      PSDFixedRank_manifold_def)

text \<open>
  Claim C10. The product of no manifolds is constructed, and its operators return the
  neutral or empty result on any arguments: \<^verbatim>\<open>dim\<close>, \<^verbatim>\<open>typicaldist\<close>, \<^verbatim>\<open>inner\<close>,
  \<^verbatim>\<open>norm\<close> and \<^verbatim>\<open>dist\<close> are \<open>0\<close>, the sequence-valued operators return the empty
  sequence (\<^verbatim>\<open>rand\<close> and \<^verbatim>\<open>randvec\<close> without drawing from the generator). Every call
  of \<^verbatim>\<open>ehess2rhess\<close> raises \<open>IndexError\<close>: the subscript
  \<^verbatim>\<open>self._manifolds[self._nmanifolds - 1]\<close> is \<^verbatim>\<open>[][-1]\<close>.
\<close>

theorem Product_empty_operators:
  "Product_name (Product_init []) = ''Product manifold: '' \<and>
   Product_dim (Product_init []) = Some 0 \<and>
   Product_typicaldist (Product_init []) = Inr 0 \<and>
   Product_inner (Product_init []) X G H = Inr 0 \<and>
   Product_norm (Product_init []) X G = Inr 0 \<and>
   Product_dist (Product_init []) X Y = Inr 0 \<and>
   Product_proj (Product_init []) X G = Inr [] \<and>
   Product_egrad2rgrad (Product_init []) X G = Inr [] \<and>
   Product_exp (Product_init []) X G = Inr [] \<and>
   Product_retr (Product_init []) X G = Inr [] \<and>
   Product_log (Product_init []) X Y = Inr [] \<and>
   Product_rand (Product_init []) gen = Inr ([], gen) \<and>
   Product_randvec cmul (Product_init []) X gen = Inr ([], gen) \<and>
   Product_transp (Product_init []) X Y G = Inr [] \<and>
   Product_pairmean (Product_init []) X Y = Inr [] \<and>
   Product_zerovec (Product_init []) X = Inr [] \<and>
   Product_ehess2rhess (Product_init []) X egrad ehess H = Inl IndexError"
  by (simp add: Product_init_def Product_name_def Product_dim_def Product_typicaldist_def
      Product_inner_def Product_norm_def Product_dist_def Product_proj_def
      Product_egrad2rgrad_def Product_exp_def Product_retr_def Product_log_def
      Product_rand_def Product_randvec_def Product_transp_def Product_pairmean_def
      Product_zerovec_def Product_ehess2rhess_def np_sum_def np_sum_int_def wrap_int64_def
      np_sqrt_def range0_def getitem_def)

section \<open>Properties of the manifolds of psd.py\<close>

lemma nrows_array [simp]: "nrows (array n k f) = n"
  by (simp add: array_def)

lemma ncols_array [simp]: "ncols (array n k f) = k"
  by (simp add: array_def)

lemma has_shape_array [simp]: "has_shape (array n k f) n' k' \<longleftrightarrow> n' = n \<and> k' = k"
  by (auto simp: has_shape_def array_def list_all_iff)

lemma item_array [simp]: "i < n \<Longrightarrow> j < k \<Longrightarrow> item (array n k f) i j = f i j"
  by (simp add: item_def array_def)

lemma array_eq_iff: "array n k f = array n k g \<longleftrightarrow> (\<forall>i<n. \<forall>j<k. f i j = g i j)"
proof
  assume "array n k f = array n k g"
  then have "\<And>i j. item (array n k f) i j = item (array n k g) i j" by simp
  then show "\<forall>i<n. \<forall>j<k. f i j = g i j" by (metis item_array)
next
  assume "\<forall>i<n. \<forall>j<k. f i j = g i j"
  then show "array n k f = array n k g" by (simp add: array_def)
qed

lemma array_item: "has_shape A n k \<Longrightarrow> array n k (item A) = A"
proof -
  assume h: "has_shape A n k"
  have len: "length (rows A) = n" and rowlen: "\<And>i. i < n \<Longrightarrow> length (rows A ! i) = k"
    using h by (auto simp: has_shape_def list_all_length)
  have "map (\<lambda>i. map (\<lambda>j. rows A ! i ! j) [0..<k]) [0..<n] = rows A"
  proof (rule nth_equalityI)
    show "length (map (\<lambda>i. map (\<lambda>j. rows A ! i ! j) [0..<k]) [0..<n]) = length (rows A)"
      using len by simp
  next
    fix i assume "i < length (map (\<lambda>i. map (\<lambda>j. rows A ! i ! j) [0..<k]) [0..<n])"
    then have i: "i < n" by simp
    have "map (\<lambda>j. rows A ! i ! j) [0..<k] = rows A ! i"
      using rowlen [OF i] by (metis map_nth)
    then show "map (\<lambda>i. map (\<lambda>j. rows A ! i ! j) [0..<k]) [0..<n] ! i = rows A ! i"
      using i by simp
  qed
  then show ?thesis
    using h by (cases A) (simp add: array_def item_def has_shape_def)
qed

lemma has_shape_eqI:
  assumes "has_shape A n k" "has_shape B n k" "\<And>i j. i < n \<Longrightarrow> j < k \<Longrightarrow> item A i j = item B i j"
  shows "A = B"
proof -
  have "array n k (item A) = array n k (item B)"
    using assms(3) by (simp add: array_eq_iff)
  then show ?thesis using assms(1,2) by (simp add: array_item)
qed

lemma sum_list_map_upt: "(\<Sum>j\<leftarrow>[0..<k]. f j) = (\<Sum>j<k. f j)"
  by (simp add: interv_sum_list_conv_sum_set_nat atLeast0LessThan)


text \<open>
  Claim C1 (for the complex manifold, \<^verbatim>\<open>inner(Y, U, V)\<close> is the doubled real part of
  \<open>trace(U\<^sup>* V)\<close>, positive for \<open>U = V \<noteq> 0\<close>, and \<^verbatim>\<open>norm\<close> is a non-negative
  real). The code does not do this: \<^verbatim>\<open>np.tensordot(U, V)\<close> multiplies the entries
  without conjugating \<open>U\<close>. At the \<open>1 \<times> 1\<close> tangent vector \<open>U = [[i]]\<close> the code's
  \<^verbatim>\<open>inner(Y, U, U)\<close> is \<open>-2\<close> and its \<^verbatim>\<open>norm(Y, U)\<close> is the square root of a
  negative number, where the doubled real part of \<open>trace(U\<^sup>* U)\<close> is \<open>2\<close>.
\<close>

theorem PSDFixedRankComplex_inner_not_hermitian:
  "PSDFixedRankComplex_inner Y (NDArray 1 1 [[\<i>]]) (NDArray 1 1 [[\<i>]]) = Inr (- 2) \<and>
   PSDFixedRankComplex_norm Y (NDArray 1 1 [[\<i>]]) = Inl NotANumber \<and>
   hermitian_metric (NDArray 1 1 [[\<i>]]) (NDArray 1 1 [[\<i>]]) = Inr 2"
  by (simp add: PSDFixedRankComplex_inner_def PSDFixedRankComplex_norm_def np_tensordot_def
      hermitian_metric_def np_matmul_def np_conj_def np_T_def array_def item_def np_sqrt_def)

text \<open>
  Claim C3 (the projection of the complex manifold is formed with conjugate
  transposes). The code does not do this: \<^verbatim>\<open>PSDFixedRankComplex\<close> inherits
  \<^verbatim>\<open>proj\<close>, which uses the plain transpose \<^verbatim>\<open>.T\<close>. At \<open>Y = [[i]]\<close>, \<open>H = [[1]]\<close>
  the code returns \<open>[[1]]\<close>, where the formula with conjugate transposes gives
  \<open>[[0]]\<close> (\<open>H = Y \<cdot> (-i)\<close> is vertical). The solver is the entrywise one for
  diagonal coefficient matrices.
\<close>

theorem PSDFixedRankComplex_proj_not_hermitian:
  "PSDFixedRankComplex_proj (lyap_diagonal cnj) (NDArray 1 1 [[\<i>]]) (NDArray 1 1 [[1]])
     = Inr (NDArray 1 1 [[1]]) \<and>
   hermitian_proj (lyap_diagonal cnj) (NDArray 1 1 [[\<i>]]) (NDArray 1 1 [[1]])
     = Inr (NDArray 1 1 [[0]])"
  by (simp add: PSDFixedRankComplex_proj_def U_PSDFixedRank_proj_def hermitian_proj_def
      lyap_diagonal_def is_diagonal_def np_matmul_def np_subtract_def np_elementwise_def
      broadcast_dim_def broadcast_index_def np_conj_def np_T_def array_def item_def)


lemma bit_length_le: "n < 2 ^ b \<Longrightarrow> bit_length n \<le> b"
proof (induction b arbitrary: n)
  case 0
  then show ?case by (simp add: bit_length.simps)
next
  case (Suc b)
  show ?case
  proof (cases "n = 0")
    case True
    then show ?thesis by (simp add: bit_length.simps)
  next
    case False
    have "n div 2 < 2 ^ b" using Suc.prems by simp
    then have "bit_length (n div 2) \<le> b" by (rule Suc.IH)
    then show ?thesis using False by (subst bit_length.simps) simp
  qed
qed

lemma nearest_double_exact: "\<bar>m\<bar> < 2 ^ 53 \<Longrightarrow> nearest_double m = Inr m"
proof -
  assume m: "\<bar>m\<bar> < 2 ^ 53"
  then have a: "nat \<bar>m\<bar> < 2 ^ 53" by (simp add: nat_less_iff)
  then have b: "bit_length (nat \<bar>m\<bar>) \<le> 53" by (rule bit_length_le)
  have "(2::nat) ^ 53 \<le> 2 ^ 1024" by (rule power_increasing) simp_all
  then have c: "\<not> 2 ^ 1024 \<le> nat \<bar>m\<bar>" using a by linarith
  show ?thesis
    unfolding nearest_double_def Let_def using b c by auto
qed

lemma str_nat_length: "n < 10 ^ d \<Longrightarrow> 0 < d \<Longrightarrow> length (str_nat n) \<le> d"
proof (induction d arbitrary: n)
  case 0
  then show ?case by simp
next
  case (Suc d)
  show ?case
  proof (cases "n < 10")
    case True
    then show ?thesis by simp
  next
    case False
    then have d: "0 < d" using Suc.prems by (cases d) auto
    have "n div 10 < 10 ^ d" using Suc.prems by simp
    then have "length (str_nat (n div 10)) \<le> d" using d by (rule Suc.IH)
    then show ?thesis using False by simp
  qed
qed

lemma str_int_small:
  assumes "\<bar>i\<bar> \<le> 2 ^ 25"
  shows "str_int i = Inr (if i < 0 then CHR ''-'' # str_nat (nat (- i)) else str_nat (nat i))"
proof -
  have "nat \<bar>i\<bar> < 10 ^ 16" using assms by (simp add: nat_less_iff)
  then have "length (str_nat (nat \<bar>i\<bar>)) \<le> 16" by (rule str_nat_length) simp
  then show ?thesis unfolding str_int_def by simp
qed


lemma abs_mult_bound: "\<bar>a\<bar> \<le> A \<Longrightarrow> \<bar>b\<bar> \<le> B \<Longrightarrow> \<bar>a * b :: int\<bar> \<le> A * B"
  by (simp add: abs_mult mult_mono)

lemma abs_half_le: "\<bar>x div 2\<bar> \<le> \<bar>x :: int\<bar>"
  by presburger

lemma small_parameters:
  fixes n k :: int
  assumes n: "\<bar>n\<bar> \<le> 2 ^ 25" and k: "\<bar>k\<bar> \<le> 2 ^ 25"
  shows "\<bar>k * n\<bar> \<le> 2 ^ 50" and "\<bar>n * (k - 1)\<bar> \<le> 2 ^ 51" and "\<bar>k * (k - 1) div 2\<bar> \<le> 2 ^ 51"
proof -
  have k1: "\<bar>k - 1\<bar> \<le> 2 ^ 25 + 1" using k by linarith
  show "\<bar>k * n\<bar> \<le> 2 ^ 50"
    using abs_mult_bound [OF k n] by simp
  show "\<bar>n * (k - 1)\<bar> \<le> 2 ^ 51"
    using abs_mult_bound [OF n k1] by simp
  have "\<bar>k * (k - 1)\<bar> \<le> 2 ^ 51"
    using abs_mult_bound [OF k k1] by simp
  then show "\<bar>k * (k - 1) div 2\<bar> \<le> 2 ^ 51"
    using abs_half_le [of "k * (k - 1)"] by linarith
qed

lemma PSDFixedRank_dimension_small:
  assumes "\<bar>n\<bar> \<le> 2 ^ 25" and "\<bar>k\<bar> \<le> 2 ^ 25"
  shows "PSDFixedRank_dimension n k = Inr (k * n - k * (k - 1) div 2)"
proof -
  note b = small_parameters [OF assms]
  have h: "nearest_double (k * (k - 1) div 2) = Inr (k * (k - 1) div 2)"
    by (rule nearest_double_exact) (use b(3) in simp)
  have a: "nearest_double (k * n) = Inr (k * n)"
    by (rule nearest_double_exact) (use b(1) in simp)
  have d: "nearest_double (k * n - k * (k - 1) div 2) = Inr (k * n - k * (k - 1) div 2)"
    by (rule nearest_double_exact) (use b(1,3) in simp)
  show ?thesis
    by (simp add: PSDFixedRank_dimension_def half_as_float_def int_minus_float_def h a d)
qed

lemma Elliptope_dimension_small:
  assumes "\<bar>n\<bar> \<le> 2 ^ 25" and "\<bar>k\<bar> \<le> 2 ^ 25"
  shows "Elliptope_dimension n k = Inr (n * (k - 1) - k * (k - 1) div 2)"
proof -
  note b = small_parameters [OF assms]
  have h: "nearest_double (k * (k - 1) div 2) = Inr (k * (k - 1) div 2)"
    by (rule nearest_double_exact) (use b(3) in simp)
  have a: "nearest_double (n * (k - 1)) = Inr (n * (k - 1))"
    by (rule nearest_double_exact) (use b(2) in simp)
  have d: "nearest_double (n * (k - 1) - k * (k - 1) div 2) = Inr (n * (k - 1) - k * (k - 1) div 2)"
    by (rule nearest_double_exact) (use b(2,3) in simp)
  show ?thesis
    by (simp add: Elliptope_dimension_def half_as_float_def int_minus_float_def h a d)
qed

lemma names_small:
  assumes "\<bar>n\<bar> \<le> 2 ^ 25" and "\<bar>k\<bar> \<le> 2 ^ 25"
  shows "\<exists>nm. PSDFixedRank_name n k = Inr nm"
    and "\<exists>nm. PSDFixedRankComplex_name n k = Inr nm"
    and "\<exists>nm. Elliptope_name n k = Inr nm"
  by (simp_all add: PSDFixedRank_name_def PSDFixedRankComplex_name_def Elliptope_name_def
      str_int_small [OF assms(1)] str_int_small [OF assms(2)])

text \<open>
  Claim C2, as amended. For shape parameters with \<open>\<bar>n\<bar> \<le> 2\<^sup>2\<^sup>5\<close> and
  \<open>\<bar>k\<bar> \<le> 2\<^sup>2\<^sup>5\<close>, where the float arithmetic of the dimension formulas is exact, the
  constructors of \<^verbatim>\<open>PSDFixedRank\<close>, \<^verbatim>\<open>PSDFixedRankComplex\<close> and \<^verbatim>\<open>Elliptope\<close>
  do not check \<open>n\<close> and \<open>k\<close>: each computes its name and its dimension
  (\<open>k n - k (k - 1) / 2\<close>, \<open>2 k n - k\<^sup>2\<close>, \<open>n (k - 1) - k (k - 1) / 2\<close>) and hands
  them to the base initialiser; the construction fails exactly when the base
  initialiser fails on those two values, and with a base initialiser that stores what
  it is given it returns the manifold.
\<close>

theorem constructors_do_not_check_parameters:
  "\<bar>n\<bar> \<le> 2 ^ 25 \<and> \<bar>k\<bar> \<le> 2 ^ 25 \<longrightarrow>
   (\<exists>nm. PSDFixedRank_name n k = Inr nm \<and>
      ((\<exists>e. PSDFixedRank_init super_init n k = Inl e) \<longleftrightarrow>
       (\<exists>e. super_init nm (k * n - k * (k - 1) div 2) = Inl e)) \<and>
      PSDFixedRank_init Manifold_init n k =
        Inr \<lparr> self_base = \<lparr> base_name = nm, base_dim = k * n - k * (k - 1) div 2 \<rparr>,
              self_n = n, self_k = k \<rparr>) \<and>
   (\<exists>nm. PSDFixedRankComplex_name n k = Inr nm \<and>
      ((\<exists>e. PSDFixedRankComplex_init super_init n k = Inl e) \<longleftrightarrow>
       (\<exists>e. super_init nm (2 * k * n - k * k) = Inl e)) \<and>
      PSDFixedRankComplex_init Manifold_init n k =
        Inr \<lparr> self_base = \<lparr> base_name = nm, base_dim = 2 * k * n - k * k \<rparr>,
              self_n = n, self_k = k \<rparr>) \<and>
   (\<exists>nm. Elliptope_name n k = Inr nm \<and>
      ((\<exists>e. Elliptope_init super_init n k = Inl e) \<longleftrightarrow>
       (\<exists>e. super_init nm (n * (k - 1) - k * (k - 1) div 2) = Inl e)) \<and>
      Elliptope_init Manifold_init n k =
        Inr \<lparr> self_base = \<lparr> base_name = nm, base_dim = n * (k - 1) - k * (k - 1) div 2 \<rparr>,
              self_n = n, self_k = k \<rparr>)"
proof (intro impI)
  assume h: "\<bar>n\<bar> \<le> 2 ^ 25 \<and> \<bar>k\<bar> \<le> 2 ^ 25"
  then have n: "\<bar>n\<bar> \<le> 2 ^ 25" and k: "\<bar>k\<bar> \<le> 2 ^ 25" by simp_all
  obtain nm1 nm2 nm3 where nm: "PSDFixedRank_name n k = Inr nm1"
      "PSDFixedRankComplex_name n k = Inr nm2" "Elliptope_name n k = Inr nm3"
    using names_small [OF n k] by blast
  show "(\<exists>nm. PSDFixedRank_name n k = Inr nm \<and>
      ((\<exists>e. PSDFixedRank_init super_init n k = Inl e) \<longleftrightarrow>
       (\<exists>e. super_init nm (k * n - k * (k - 1) div 2) = Inl e)) \<and>
      PSDFixedRank_init Manifold_init n k =
        Inr \<lparr> self_base = \<lparr> base_name = nm, base_dim = k * n - k * (k - 1) div 2 \<rparr>,
              self_n = n, self_k = k \<rparr>) \<and>
   (\<exists>nm. PSDFixedRankComplex_name n k = Inr nm \<and>
      ((\<exists>e. PSDFixedRankComplex_init super_init n k = Inl e) \<longleftrightarrow>
       (\<exists>e. super_init nm (2 * k * n - k * k) = Inl e)) \<and>
      PSDFixedRankComplex_init Manifold_init n k =
        Inr \<lparr> self_base = \<lparr> base_name = nm, base_dim = 2 * k * n - k * k \<rparr>,
              self_n = n, self_k = k \<rparr>) \<and>
   (\<exists>nm. Elliptope_name n k = Inr nm \<and>
      ((\<exists>e. Elliptope_init super_init n k = Inl e) \<longleftrightarrow>
       (\<exists>e. super_init nm (n * (k - 1) - k * (k - 1) div 2) = Inl e)) \<and>
      Elliptope_init Manifold_init n k =
        Inr \<lparr> self_base = \<lparr> base_name = nm, base_dim = n * (k - 1) - k * (k - 1) div 2 \<rparr>,
              self_n = n, self_k = k \<rparr>)"
    by (simp add: nm PSDFixedRank_init_def PSDFixedRankComplex_init_def Elliptope_init_def
        U_PSDFixedRank_init_def Manifold_init_def PSDFixedRank_dimension_small [OF n k]
        Elliptope_dimension_small [OF n k] PSDFixedRankComplex_dimension_def and_then_def
        split: sum.splits)
qed

lemma names_at_5_2:
  "PSDFixedRank_name 5 2 = Inr ''Quotient manifold of 5x5 psd matrices of rank 2''"
  "PSDFixedRankComplex_name 5 2 = Inr ''Quotient manifold of Hermitian 5x5 matrices of rank 2''"
  "Elliptope_name 5 2
     = Inr ''Quotient manifold of 5x5 psd matrices of rank 2 with unit diagonal elements''"
  by (simp_all add: PSDFixedRank_name_def PSDFixedRankComplex_name_def Elliptope_name_def
      str_int_small digit_char_def)

theorem constructors_do_not_check_parameters_witness:
  "\<bar>5 :: int\<bar> \<le> 2 ^ 25 \<and> \<bar>2 :: int\<bar> \<le> 2 ^ 25 \<and>
   PSDFixedRank_init Manifold_init 5 2 =
     Inr \<lparr> self_base = \<lparr> base_name = ''Quotient manifold of 5x5 psd matrices of rank 2'',
                          base_dim = 9 \<rparr>,
           self_n = 5, self_k = 2 \<rparr> \<and>
   PSDFixedRankComplex_init Manifold_init 5 2 =
     Inr \<lparr> self_base = \<lparr> base_name = ''Quotient manifold of Hermitian 5x5 matrices of rank 2'',
                          base_dim = 16 \<rparr>,
           self_n = 5, self_k = 2 \<rparr> \<and>
   Elliptope_init Manifold_init 5 2 =
     Inr \<lparr> self_base = \<lparr> base_name =
              ''Quotient manifold of 5x5 psd matrices of rank 2 with unit diagonal elements'',
                          base_dim = 4 \<rparr>,
           self_n = 5, self_k = 2 \<rparr>"
  using constructors_do_not_check_parameters [of 5 2 Manifold_init] by (simp add: names_at_5_2)

text \<open>
  Claim C2 as stated fails: with parameters that violate \<open>k \<le> n\<close>, \<open>1 \<le> k\<close> or
  \<open>1 \<le> n\<close> each constructor returns a manifold.
\<close>

theorem constructors_accept_invalid_parameters:
  "\<not> valid_parameters 1 2 \<and>
   PSDFixedRank_init Manifold_init 1 2 =
     Inr \<lparr> self_base = \<lparr> base_name = ''Quotient manifold of 1x1 psd matrices of rank 2'',
                          base_dim = 1 \<rparr>,
           self_n = 1, self_k = 2 \<rparr> \<and>
   \<not> valid_parameters 0 0 \<and>
   PSDFixedRankComplex_init Manifold_init 0 0 =
     Inr \<lparr> self_base = \<lparr> base_name = ''Quotient manifold of Hermitian 0x0 matrices of rank 0'',
                          base_dim = 0 \<rparr>,
           self_n = 0, self_k = 0 \<rparr> \<and>
   \<not> valid_parameters 2 3 \<and>
   Elliptope_init Manifold_init 2 3 =
     Inr \<lparr> self_base = \<lparr> base_name =
              ''Quotient manifold of 2x2 psd matrices of rank 3 with unit diagonal elements'',
                          base_dim = 1 \<rparr>,
           self_n = 2, self_k = 3 \<rparr>"
  by (simp add: valid_parameters_def PSDFixedRank_init_def PSDFixedRankComplex_init_def
      Elliptope_init_def U_PSDFixedRank_init_def Manifold_init_def PSDFixedRank_dimension_small
      Elliptope_dimension_small PSDFixedRankComplex_dimension_def PSDFixedRank_name_def
      PSDFixedRankComplex_name_def Elliptope_name_def str_int_small digit_char_def)

lemma broadcast_dim_same [simp]: "broadcast_dim n n = Some n"
  by (simp add: broadcast_dim_def)

lemma broadcast_dim_one [simp]: "broadcast_dim k (Suc 0) = Some k"
  by (simp add: broadcast_dim_def)

lemma broadcast_index_less [simp]: "i < n \<Longrightarrow> broadcast_index n i = i"
  by (auto simp: broadcast_index_def)

lemma np_elementwise_same_shape:
  assumes "has_shape A n k" "has_shape B n k"
  shows "np_elementwise f A B = Inr (array n k (\<lambda>i j. f (item A i j) (item B i j)))"
proof -
  have s: "nrows A = n" "ncols A = k" "nrows B = n" "ncols B = k"
    using assms by (auto simp: has_shape_def)
  show ?thesis
    by (simp add: np_elementwise_def s array_eq_iff)
qed

lemma np_elementwise_column:
  assumes "has_shape A n k" "length v = n"
  shows "np_elementwise f A (newaxis_column v) = Inr (array n k (\<lambda>i j. f (item A i j) (v ! i)))"
proof -
  have s: "nrows A = n" "ncols A = k"
    using assms by (auto simp: has_shape_def)
  show ?thesis
    by (simp add: np_elementwise_def s newaxis_column_def assms(2) array_eq_iff broadcast_index_def)
qed

lemma np_zeros_shape:
  "0 \<le> n \<Longrightarrow> 0 \<le> k \<Longrightarrow> np_zeros n k = Inr (array (nat n) (nat k) (\<lambda>i j. 0))"
  by (simp add: np_zeros_def)

lemma PSD_retr_zero:
  fixes Y :: "'a::monoid_add ndarray"
  assumes "has_shape Y n k"
  shows "np_add Y (array n k (\<lambda>i j. 0)) = Inr Y"
proof -
  have "np_add Y (array n k (\<lambda>i j. 0)) = Inr (array n k (\<lambda>i j. item Y i j + item (array n k (\<lambda>i j. 0 :: 'a)) i j))"
    unfolding np_add_def by (rule np_elementwise_same_shape) (use assms in auto)
  also have "array n k (\<lambda>i j. item Y i j + item (array n k (\<lambda>i j. 0 :: 'a)) i j) = array n k (item Y)"
    by (simp add: array_eq_iff)
  finally show ?thesis using assms by (simp add: array_item)
qed

lemma list_ex_rows_array:
  "list_ex (list_ex p) (rows (array n k f)) \<longleftrightarrow> (\<exists>i<n. \<exists>j<k. p (f i j))"
  by (fastforce simp: array_def list_ex_iff)

lemma la_norm_axis1_length [simp]: "length (la_norm_axis1 Y) = nrows Y"
  by (simp add: la_norm_axis1_def)

lemma la_norm_axis1_nth:
  "i < nrows Y \<Longrightarrow> la_norm_axis1 Y ! i = sqrt (\<Sum>j<ncols Y. (item Y i j)\<^sup>2)"
  by (simp add: la_norm_axis1_def sum_list_map_upt)

lemma unit_rows_iff: "unit_rows Y \<longleftrightarrow> (\<forall>i<nrows Y. (\<Sum>j<ncols Y. (item Y i j)\<^sup>2) = 1)"
  by (auto simp: unit_rows_def list_all_length la_norm_axis1_nth)

lemma nonzero_rows_iff: "nonzero_rows Y \<longleftrightarrow> (\<forall>i<nrows Y. (\<Sum>j<ncols Y. (item Y i j)\<^sup>2) \<noteq> 0)"
  by (auto simp: nonzero_rows_def list_all_length la_norm_axis1_nth)

lemma normalize_rows_ok:
  assumes sh: "has_shape R n k" and nz: "nonzero_rows R"
  shows "Elliptope_normalize_rows R = Inr (array n k (\<lambda>i j. item R i j / la_norm_axis1 R ! i))"
    and "unit_rows (array n k (\<lambda>i j. item R i j / la_norm_axis1 R ! i))"
proof -
  have s: "nrows R = n" "ncols R = k" using sh by (auto simp: has_shape_def)
  have pos: "\<And>i. i < n \<Longrightarrow> la_norm_axis1 R ! i \<noteq> 0"
    using nz by (simp add: nonzero_rows_def list_all_length s)
  have pairs: "np_elementwise (\<lambda>x y. (x, y)) R (newaxis_column (la_norm_axis1 R))
      = Inr (array n k (\<lambda>i j. (item R i j, la_norm_axis1 R ! i)))"
    by (rule np_elementwise_column) (use sh s in auto)
  show "Elliptope_normalize_rows R = Inr (array n k (\<lambda>i j. item R i j / la_norm_axis1 R ! i))"
    unfolding Elliptope_normalize_rows_def np_divide_def pairs
    using pos by (auto simp: list_ex_rows_array array_eq_iff)
  show "unit_rows (array n k (\<lambda>i j. item R i j / la_norm_axis1 R ! i))"
  proof (unfold unit_rows_iff, intro allI impI)
    fix i assume "i < nrows (array n k (\<lambda>i j. item R i j / la_norm_axis1 R ! i))"
    then have i: "i < n" by simp
    let ?q = "\<Sum>j<k. (item R i j)\<^sup>2"
    have q0: "0 \<le> ?q" by (simp add: sum_nonneg)
    have nrm: "la_norm_axis1 R ! i = sqrt ?q" using i by (simp add: la_norm_axis1_nth s)
    have qn: "?q \<noteq> 0" using pos [OF i] nrm by auto
    have "(\<Sum>j<k. (item (array n k (\<lambda>i j. item R i j / la_norm_axis1 R ! i)) i j)\<^sup>2)
        = (\<Sum>j<k. (item R i j)\<^sup>2 / ?q)"
      using i q0 by (intro sum.cong) (simp_all add: nrm power_divide)
    also have "\<dots> = ?q / ?q" by (rule sum_divide_distrib [symmetric])
    also have "\<dots> = 1" using qn by simp
    finally show "(\<Sum>j<ncols (array n k (\<lambda>i j. item R i j / la_norm_axis1 R ! i)).
        (item (array n k (\<lambda>i j. item R i j / la_norm_axis1 R ! i)) i j)\<^sup>2) = 1"
      by simp
  qed
qed


lemma rows_orthogonal_iff:
  "rows_orthogonal Y U \<longleftrightarrow> (\<forall>i<nrows Y. (\<Sum>j<ncols Y. item Y i j * item U i j) = 0)"
  by (simp add: rows_orthogonal_def list_all_length sum_list_map_upt)

lemma nonzero_rows_retr:
  assumes Y: "has_shape Y n k" and u: "unit_rows Y" and orth: "rows_orthogonal Y U"
  shows "nonzero_rows (array n k (\<lambda>i j. item Y i j + item U i j))"
proof (unfold nonzero_rows_iff, intro allI impI)
  fix i assume "i < nrows (array n k (\<lambda>i j. item Y i j + item U i j))"
  then have i: "i < n" by simp
  have s: "nrows Y = n" "ncols Y = k" using Y by (auto simp: has_shape_def)
  have y1: "(\<Sum>j<k. (item Y i j)\<^sup>2) = 1" using u i by (simp add: unit_rows_iff s)
  have yu: "(\<Sum>j<k. item Y i j * item U i j) = 0" using orth i by (simp add: rows_orthogonal_iff s)
  have "(\<Sum>j<k. (item Y i j + item U i j)\<^sup>2)
      = (\<Sum>j<k. (item Y i j)\<^sup>2) + 2 * (\<Sum>j<k. item Y i j * item U i j) + (\<Sum>j<k. (item U i j)\<^sup>2)"
    by (simp add: power2_sum sum.distrib sum_distrib_left mult.assoc)
  also have "\<dots> = 1 + (\<Sum>j<k. (item U i j)\<^sup>2)" by (simp add: y1 yu)
  finally have "(\<Sum>j<k. (item Y i j + item U i j)\<^sup>2) \<ge> 1"
    by (simp add: sum_nonneg)
  then have "(\<Sum>j<k. (item (array n k (\<lambda>i j. item Y i j + item U i j)) i j)\<^sup>2) \<ge> 1"
    using i by simp
  then show "(\<Sum>j<ncols (array n k (\<lambda>i j. item Y i j + item U i j)).
       (item (array n k (\<lambda>i j. item Y i j + item U i j)) i j)\<^sup>2) \<noteq> 0"
    by simp
qed

text \<open>
  Claim C6. For \<^verbatim>\<open>Elliptope\<close>: when no row of the drawn sample is zero, \<^verbatim>\<open>rand()\<close>
  returns a point of the manifold's shape whose rows all have Euclidean norm 1; and
  for a point \<open>Y\<close> with unit rows and a tangent vector \<open>U\<close> of the same shape (each
  row of \<open>U\<close> orthogonal to the row of \<open>Y\<close>), \<^verbatim>\<open>retr(Y, U)\<close> returns a point of
  that shape with unit rows. Numbers are exact reals.
\<close>

theorem Elliptope_unit_rows:
  "(rnd_randn (self_n self) (self_k self) g = Inr (R, g1) \<and> nonzero_rows R \<longrightarrow>
      (\<exists>Y. Elliptope_rand self g = Inr (Y, g1) \<and> is_point self Y \<and> unit_rows Y)) \<and>
   (has_shape Y n k \<and> has_shape U n k \<and> unit_rows Y \<and> rows_orthogonal Y U \<longrightarrow>
      (\<exists>Z. Elliptope_retr Y U = Inr Z \<and> has_shape Z n k \<and> unit_rows Z))"
proof (intro conjI impI)
  assume h: "rnd_randn (self_n self) (self_k self) g = Inr (R, g1) \<and> nonzero_rows R"
  then have nk: "0 \<le> self_n self" "0 \<le> self_k self"
    and R: "R = array (nat (self_n self)) (nat (self_k self)) (\<lambda>i j. g (i * nat (self_k self) + j))"
    by (auto simp: rnd_randn_def split: if_splits)
  have sh: "has_shape R (nat (self_n self)) (nat (self_k self))" by (simp add: R)
  let ?Y = "array (nat (self_n self)) (nat (self_k self)) (\<lambda>i j. item R i j / la_norm_axis1 R ! i)"
  have "Elliptope_normalize_rows R = Inr ?Y" "unit_rows ?Y"
    using normalize_rows_ok [OF sh] h by auto
  then have "Elliptope_rand self g = Inr (?Y, g1) \<and> is_point self ?Y \<and> unit_rows ?Y"
    using h nk by (simp add: Elliptope_rand_def is_point_def)
  then show "\<exists>Y. Elliptope_rand self g = Inr (Y, g1) \<and> is_point self Y \<and> unit_rows Y" ..
next
  assume h: "has_shape Y n k \<and> has_shape U n k \<and> unit_rows Y \<and> rows_orthogonal Y U"
  let ?S = "array n k (\<lambda>i j. item Y i j + item U i j)"
  have add: "np_add Y U = Inr ?S"
    unfolding np_add_def using h by (simp add: np_elementwise_same_shape)
  have nz: "nonzero_rows ?S" using h by (simp add: nonzero_rows_retr)
  have sh: "has_shape ?S n k" by simp
  let ?Z = "array n k (\<lambda>i j. item ?S i j / la_norm_axis1 ?S ! i)"
  have "Elliptope_normalize_rows ?S = Inr ?Z" "unit_rows ?Z"
    using normalize_rows_ok [OF sh nz] by auto
  then have "Elliptope_retr Y U = Inr ?Z \<and> has_shape ?Z n k \<and> unit_rows ?Z"
    by (simp add: Elliptope_retr_def add)
  then show "\<exists>Z. Elliptope_retr Y U = Inr Z \<and> has_shape Z n k \<and> unit_rows Z" ..
qed

theorem Elliptope_unit_rows_witness:
  "nonzero_rows (NDArray 1 2 [[3, 4]]) \<and>
   (\<exists>Y g1. Elliptope_rand \<lparr> self_base = (), self_n = 1, self_k = 2 \<rparr>
              (\<lambda>m. if m = 0 then 3 else 4) = Inr (Y, g1) \<and> unit_rows Y) \<and>
   unit_rows (NDArray 1 2 [[1, 0]]) \<and>
   rows_orthogonal (NDArray 1 2 [[1, 0]]) (NDArray 1 2 [[0, 2]]) \<and>
   (\<exists>Z. Elliptope_retr (NDArray 1 2 [[1, 0]]) (NDArray 1 2 [[0, 2]]) = Inr Z \<and> unit_rows Z)"
proof -
  let ?self = "\<lparr> self_base = (), self_n = 1, self_k = 2 \<rparr>"
  let ?g = "\<lambda>m::nat. if m = 0 then 3 else 4 :: real"
  have draw: "rnd_randn (self_n ?self) (self_k ?self) ?g
      = Inr (NDArray 1 2 [[3, 4]], \<lambda>m. ?g (nat 1 * nat 2 + m))"
    by (simp add: rnd_randn_def array_def upt_rec)
  have nz: "nonzero_rows (NDArray 1 2 [[3, 4]])"
    by (simp add: nonzero_rows_def la_norm_axis1_def item_def upt_rec)
  have pt: "has_shape (NDArray 1 2 [[1, 0 :: real]]) 1 2 \<and> has_shape (NDArray 1 2 [[0, 2 :: real]]) 1 2
      \<and> unit_rows (NDArray 1 2 [[1, 0]])
      \<and> rows_orthogonal (NDArray 1 2 [[1, 0]]) (NDArray 1 2 [[0, 2]])"
    by (simp add: has_shape_def unit_rows_def rows_orthogonal_def la_norm_axis1_def item_def upt_rec)
  show ?thesis
    using Elliptope_unit_rows [of ?self ?g "NDArray 1 2 [[3, 4]]" "\<lambda>m. ?g (nat 1 * nat 2 + m)"
        "NDArray 1 2 [[1, 0]]" 1 2 "NDArray 1 2 [[0, 2]]"] draw nz pt
    by blast
qed

lemma normalize_rows_unit:
  assumes sh: "has_shape Y n k" and u: "unit_rows Y"
  shows "Elliptope_normalize_rows Y = Inr Y"
proof -
  have s: "nrows Y = n" "ncols Y = k" using sh by (auto simp: has_shape_def)
  have one: "\<And>i. i < n \<Longrightarrow> la_norm_axis1 Y ! i = 1"
    using u by (simp add: unit_rows_def list_all_length s)
  then have nz: "nonzero_rows Y" by (simp add: nonzero_rows_def list_all_length s)
  have "Elliptope_normalize_rows Y = Inr (array n k (\<lambda>i j. item Y i j / la_norm_axis1 Y ! i))"
    using normalize_rows_ok(1) [OF sh nz] .
  also have "array n k (\<lambda>i j. item Y i j / la_norm_axis1 Y ! i) = array n k (item Y)"
    by (simp add: array_eq_iff one)
  finally show ?thesis using sh by (simp add: array_item)
qed

lemma and_then_eq_Inr: "and_then m f = Inr y \<longleftrightarrow> (\<exists>v. m = Inr v \<and> f v = Inr y)"
  by (cases m) simp_all

lemma Product_zerovec_retr:
  assumes len: "length X = length ms"
    and ch: "\<And>k. k < length ms \<Longrightarrow> and_then (zerovec (ms ! k) (X ! k)) (retr (ms ! k) (X ! k)) = Inr (X ! k)"
  shows "and_then (Product_zerovec (Product_init ms) X) (Product_retr (Product_init ms) X) = Inr X"
proof -
  have "\<forall>k<length ms. \<exists>z. zerovec (ms ! k) (X ! k) = Inr z \<and> retr (ms ! k) (X ! k) z = Inr (X ! k)"
    using ch by (simp add: and_then_eq_Inr)
  then obtain z where z: "\<And>k. k < length ms \<Longrightarrow> zerovec (ms ! k) (X ! k) = Inr (z k)"
    and r: "\<And>k. k < length ms \<Longrightarrow> retr (ms ! k) (X ! k) (z k) = Inr (X ! k)"
    by metis
  have zv: "Product_zerovec (Product_init ms) X = Inr (map z [0..<length ms])"
    unfolding Product_zerovec_def
    by (simp add: Product_init_def list_comp_range0 getitem_nth len z)
  have "Product_retr (Product_init ms) X (map z [0..<length ms]) = Inr (map (\<lambda>k. X ! k) [0..<length ms])"
    unfolding Product_retr_def
    by (simp add: Product_init_def list_comp_range0 getitem_nth len r)
  also have "map (\<lambda>k. X ! k) [0..<length ms] = X"
    using len by (metis map_nth)
  finally show ?thesis by (simp add: zv)
qed

text \<open>
  Claim C7. \<^verbatim>\<open>retr(X, zerovec(X))\<close> returns \<open>X\<close>: for \<^verbatim>\<open>PSDFixedRank\<close> and
  \<^verbatim>\<open>PSDFixedRankComplex\<close> at every array of the manifold's shape, for \<^verbatim>\<open>Elliptope\<close>
  at every such array with unit rows, and for a \<^verbatim>\<open>Product\<close> at every index-aligned
  point whose components satisfy the property in their own manifolds.
\<close>

theorem retr_zerovec_identity:
  "(is_point self Y \<longrightarrow>
      and_then (PSDFixedRank_zerovec self Y) (PSDFixedRank_retr Y) = Inr Y) \<and>
   (is_point self Z \<longrightarrow>
      and_then (PSDFixedRankComplex_zerovec self Z) (PSDFixedRankComplex_retr Z) = Inr Z) \<and>
   (is_point self E \<and> unit_rows E \<longrightarrow>
      and_then (Elliptope_zerovec self E) (Elliptope_retr E) = Inr E) \<and>
   (length X = length ms \<and>
    (\<forall>k<length ms. and_then (zerovec (ms ! k) (X ! k)) (retr (ms ! k) (X ! k)) = Inr (X ! k)) \<longrightarrow>
      and_then (Product_zerovec (Product_init ms) X) (Product_retr (Product_init ms) X) = Inr X)"
proof (intro conjI impI)
  assume "is_point self Y"
  then show "and_then (PSDFixedRank_zerovec self Y) (PSDFixedRank_retr Y) = Inr Y"
    by (simp add: is_point_def PSDFixedRank_zerovec_def PSDFixedRank_retr_def
        U_PSDFixedRank_zerovec_def U_PSDFixedRank_retr_def np_zeros_shape PSD_retr_zero)
next
  assume p: "is_point self Z"
  have "as_complex (array (nat (self_n self)) (nat (self_k self)) (\<lambda>i j. 0))
      = array (nat (self_n self)) (nat (self_k self)) (\<lambda>i j. 0)"
    by (simp add: as_complex_def array_eq_iff)
  then show "and_then (PSDFixedRankComplex_zerovec self Z) (PSDFixedRankComplex_retr Z) = Inr Z"
    using p
    by (simp add: is_point_def PSDFixedRankComplex_zerovec_def PSDFixedRankComplex_retr_def
        U_PSDFixedRank_zerovec_def U_PSDFixedRank_retr_def np_zeros_shape PSD_retr_zero)
next
  assume h: "is_point self E \<and> unit_rows E"
  then have "Elliptope_normalize_rows E = Inr E"
    using normalize_rows_unit [of E "nat (self_n self)" "nat (self_k self)"]
    by (simp add: is_point_def)
  then show "and_then (Elliptope_zerovec self E) (Elliptope_retr E) = Inr E"
    using h
    by (simp add: is_point_def Elliptope_zerovec_def Elliptope_retr_def np_zeros_shape
        PSD_retr_zero)
next
  assume "length X = length ms \<and>
    (\<forall>k<length ms. and_then (zerovec (ms ! k) (X ! k)) (retr (ms ! k) (X ! k)) = Inr (X ! k))"
  then show "and_then (Product_zerovec (Product_init ms) X) (Product_retr (Product_init ms) X) = Inr X"
    by (simp add: Product_zerovec_retr)
qed


theorem retr_zerovec_identity_witness:
  "is_point \<lparr> self_base = \<lparr> base_name = ''M'', base_dim = 2 \<rparr>, self_n = 2, self_k = 1 \<rparr>
     (NDArray 2 1 [[3], [4 :: real]]) \<and>
   and_then (PSDFixedRank_zerovec
       \<lparr> self_base = \<lparr> base_name = ''M'', base_dim = 2 \<rparr>, self_n = 2, self_k = 1 \<rparr>
       (NDArray 2 1 [[3], [4 :: real]]))
     (PSDFixedRank_retr (NDArray 2 1 [[3], [4]])) = Inr (NDArray 2 1 [[3], [4]]) \<and>
   and_then (PSDFixedRankComplex_zerovec
       \<lparr> self_base = \<lparr> base_name = ''M'', base_dim = 2 \<rparr>, self_n = 2, self_k = 1 \<rparr>
       (NDArray 2 1 [[\<i>], [1]]))
     (PSDFixedRankComplex_retr (NDArray 2 1 [[\<i>], [1]])) = Inr (NDArray 2 1 [[\<i>], [1]]) \<and>
   unit_rows (NDArray 2 1 [[1], [- 1]]) \<and>
   and_then (Elliptope_zerovec
       \<lparr> self_base = \<lparr> base_name = ''M'', base_dim = 2 \<rparr>, self_n = 2, self_k = 1 \<rparr>
       (NDArray 2 1 [[1], [- 1 :: real]]))
     (Elliptope_retr (NDArray 2 1 [[1], [- 1]])) = Inr (NDArray 2 1 [[1], [- 1]]) \<and>
   and_then
     (Product_zerovec
        (Product_init
           [PSDFixedRank_manifold (lyap_diagonal id)
              \<lparr> self_base = \<lparr> base_name = ''M'', base_dim = 2 \<rparr>, self_n = 2, self_k = 1 \<rparr>,
            Elliptope_manifold (lyap_diagonal id)
              \<lparr> self_base = \<lparr> base_name = ''M'', base_dim = 2 \<rparr>, self_n = 2, self_k = 1 \<rparr>])
        [NDArray 2 1 [[3], [4]], NDArray 2 1 [[1], [- 1]]])
     (Product_retr
        (Product_init
           [PSDFixedRank_manifold (lyap_diagonal id)
              \<lparr> self_base = \<lparr> base_name = ''M'', base_dim = 2 \<rparr>, self_n = 2, self_k = 1 \<rparr>,
            Elliptope_manifold (lyap_diagonal id)
              \<lparr> self_base = \<lparr> base_name = ''M'', base_dim = 2 \<rparr>, self_n = 2, self_k = 1 \<rparr>])
        [NDArray 2 1 [[3], [4]], NDArray 2 1 [[1], [- 1]]])
     = Inr [NDArray 2 1 [[3], [4]], NDArray 2 1 [[1], [- 1]]]"
proof -
  let ?self = "\<lparr> self_base = \<lparr> base_name = ''M'', base_dim = 2 \<rparr>, self_n = 2, self_k = 1 \<rparr>"
  let ?Y = "NDArray 2 1 [[3], [4 :: real]]"
  let ?Z = "NDArray 2 1 [[\<i>], [1]]"
  let ?E = "NDArray 2 1 [[1], [- 1 :: real]]"
  let ?ms = "[PSDFixedRank_manifold (lyap_diagonal id) ?self, Elliptope_manifold (lyap_diagonal id) ?self]"
  have pY: "is_point ?self ?Y" and pZ: "is_point ?self ?Z" and pE: "is_point ?self ?E"
    by (simp_all add: is_point_def has_shape_def)
  have uE: "unit_rows ?E"
    by (simp add: unit_rows_def la_norm_axis1_def item_def upt_rec)
  note base = retr_zerovec_identity [of ?self ?Y ?Z ?E "[]" "[]"]
  have cY: "and_then (PSDFixedRank_zerovec ?self ?Y) (PSDFixedRank_retr ?Y) = Inr ?Y"
    and cZ: "and_then (PSDFixedRankComplex_zerovec ?self ?Z) (PSDFixedRankComplex_retr ?Z) = Inr ?Z"
    and cE: "and_then (Elliptope_zerovec ?self ?E) (Elliptope_retr ?E) = Inr ?E"
    using base pY pZ pE uE by blast+
  have ch: "\<forall>k<length ?ms. and_then (zerovec (?ms ! k) ([?Y, ?E] ! k)) (retr (?ms ! k) ([?Y, ?E] ! k))
      = Inr ([?Y, ?E] ! k)"
    using cY cE by (simp add: All_less_Suc PSDFixedRank_manifold_def Elliptope_manifold_def)
  have "and_then (Product_zerovec (Product_init ?ms) [?Y, ?E]) (Product_retr (Product_init ?ms) [?Y, ?E])
      = Inr [?Y, ?E]"
    using retr_zerovec_identity [of ?self ?Y ?Z ?E "[?Y, ?E]" ?ms] ch by simp
  then show ?thesis using pY uE cY cZ cE by simp
qed

section \<open>The projection onto the horizontal space is idempotent\<close>

lemma gram_times:
  fixes y :: "nat \<Rightarrow> nat \<Rightarrow> real"
  shows "(\<Sum>c<k. (\<Sum>i<n. y i a * y i c) * x c b) = (\<Sum>i<n. y i a * (\<Sum>c<k. y i c * x c b))"
proof -
  have "(\<Sum>c<k. (\<Sum>i<n. y i a * y i c) * x c b) = (\<Sum>c<k. \<Sum>i<n. y i a * (y i c * x c b))"
    by (simp add: sum_distrib_right mult.assoc)
  also have "\<dots> = (\<Sum>i<n. \<Sum>c<k. y i a * (y i c * x c b))"
    by (rule sum.swap)
  also have "\<dots> = (\<Sum>i<n. y i a * (\<Sum>c<k. y i c * x c b))"
    by (simp add: sum_distrib_left)
  finally show ?thesis .
qed

lemma quadratic_left:
  fixes y :: "nat \<Rightarrow> nat \<Rightarrow> real"
  shows "(\<Sum>a<k. \<Sum>b<k. x a b * (\<Sum>c<k. (\<Sum>i<n. y i a * y i c) * x c b))
       = (\<Sum>i<n. \<Sum>b<k. (\<Sum>a<k. y i a * x a b)\<^sup>2)"
proof -
  let ?Z = "\<lambda>i b. \<Sum>c<k. y i c * x c b"
  have "(\<Sum>a<k. \<Sum>b<k. x a b * (\<Sum>c<k. (\<Sum>i<n. y i a * y i c) * x c b))
      = (\<Sum>a<k. \<Sum>b<k. x a b * (\<Sum>i<n. y i a * ?Z i b))"
    by (simp only: gram_times)
  also have "\<dots> = (\<Sum>a<k. \<Sum>b<k. \<Sum>i<n. (y i a * x a b) * ?Z i b)"
    by (simp only: sum_distrib_left mult.assoc [symmetric] mult.commute [of "x _ _" "y _ _"])
  also have "\<dots> = (\<Sum>a<k. \<Sum>i<n. \<Sum>b<k. (y i a * x a b) * ?Z i b)"
    by (rule sum.cong [OF refl], rule sum.swap)
  also have "\<dots> = (\<Sum>i<n. \<Sum>a<k. \<Sum>b<k. (y i a * x a b) * ?Z i b)"
    by (rule sum.swap)
  also have "\<dots> = (\<Sum>i<n. \<Sum>b<k. \<Sum>a<k. (y i a * x a b) * ?Z i b)"
    by (rule sum.cong [OF refl], rule sum.swap)
  also have "\<dots> = (\<Sum>i<n. \<Sum>b<k. (?Z i b)\<^sup>2)"
    by (simp add: sum_distrib_right [symmetric] power2_eq_square)
  finally show ?thesis .
qed

lemma quadratic_right:
  fixes y :: "nat \<Rightarrow> nat \<Rightarrow> real"
  shows "(\<Sum>a<k. \<Sum>b<k. x a b * (\<Sum>c<k. x a c * (\<Sum>i<n. y i b * y i c)))
       = (\<Sum>i<n. \<Sum>a<k. (\<Sum>b<k. y i b * x a b)\<^sup>2)"
proof -
  let ?W = "\<lambda>i a. \<Sum>c<k. y i c * x a c"
  have "\<And>a b. (\<Sum>c<k. x a c * (\<Sum>i<n. y i b * y i c)) = (\<Sum>i<n. y i b * ?W i a)"
    using gram_times [where y = y and x = "\<lambda>c b. x b c" and k = k and n = n]
    by (simp add: mult.commute)
  then have "(\<Sum>a<k. \<Sum>b<k. x a b * (\<Sum>c<k. x a c * (\<Sum>i<n. y i b * y i c)))
      = (\<Sum>a<k. \<Sum>b<k. x a b * (\<Sum>i<n. y i b * ?W i a))"
    by simp
  also have "\<dots> = (\<Sum>a<k. \<Sum>b<k. \<Sum>i<n. (y i b * x a b) * ?W i a)"
    by (simp only: sum_distrib_left mult.assoc [symmetric] mult.commute [of "x _ _" "y _ _"])
  also have "\<dots> = (\<Sum>a<k. \<Sum>i<n. \<Sum>b<k. (y i b * x a b) * ?W i a)"
    by (rule sum.cong [OF refl], rule sum.swap)
  also have "\<dots> = (\<Sum>i<n. \<Sum>a<k. \<Sum>b<k. (y i b * x a b) * ?W i a)"
    by (rule sum.swap)
  also have "\<dots> = (\<Sum>i<n. \<Sum>a<k. (?W i a)\<^sup>2)"
    by (simp add: sum_distrib_right [symmetric] power2_eq_square)
  finally show ?thesis .
qed


lemma lyapunov_unique:
  fixes y x :: "nat \<Rightarrow> nat \<Rightarrow> real"
  assumes full: "\<And>v. (\<forall>i<n. (\<Sum>j<k. y i j * v j) = 0) \<Longrightarrow> (\<forall>j<k. v j = 0)"
    and eq: "\<And>a b. a < k \<Longrightarrow> b < k \<Longrightarrow>
      (\<Sum>c<k. (\<Sum>i<n. y i a * y i c) * x c b) + (\<Sum>c<k. x a c * (\<Sum>i<n. y i b * y i c)) = 0"
  shows "\<forall>a<k. \<forall>b<k. x a b = 0"
proof -
  let ?S1 = "\<Sum>i<n. \<Sum>b<k. (\<Sum>a<k. y i a * x a b)\<^sup>2"
  let ?S2 = "\<Sum>i<n. \<Sum>a<k. (\<Sum>b<k. y i b * x a b)\<^sup>2"
  let ?AX = "\<lambda>a b. \<Sum>c<k. (\<Sum>i<n. y i a * y i c) * x c b"
  let ?XA = "\<lambda>a b. \<Sum>c<k. x a c * (\<Sum>i<n. y i b * y i c)"
  have e1: "?S1 = (\<Sum>a<k. \<Sum>b<k. x a b * ?AX a b)"
    by (rule quadratic_left [symmetric])
  have e2: "?S2 = (\<Sum>a<k. \<Sum>b<k. x a b * ?XA a b)"
    by (rule quadratic_right [symmetric])
  have "?S1 + ?S2 = (\<Sum>a<k. \<Sum>b<k. x a b * (?AX a b + ?XA a b))"
    unfolding e1 e2 by (simp add: sum.distrib distrib_left)
  also have "\<dots> = (\<Sum>a<k. \<Sum>b<k. x a b * 0)"
    by (intro sum.cong refl) (simp add: eq)
  finally have sum0: "?S1 + ?S2 = 0" by simp
  have n1: "0 \<le> ?S1" and n2: "0 \<le> ?S2" by (simp_all add: sum_nonneg)
  from sum0 n1 n2 have "?S1 = 0" by linarith
  then have "\<forall>i<n. (\<Sum>b<k. (\<Sum>a<k. y i a * x a b)\<^sup>2) = 0"
    by (subst (asm) sum_nonneg_eq_0_iff) (auto simp: sum_nonneg)
  then have z: "\<And>i b. i < n \<Longrightarrow> b < k \<Longrightarrow> (\<Sum>a<k. y i a * x a b) = 0"
    by (subst (asm) sum_nonneg_eq_0_iff) auto
  show ?thesis
  proof (intro allI impI)
    fix a b assume a: "a < k" and b: "b < k"
    have "\<forall>j<k. (\<lambda>a. x a b) j = 0"
      by (rule full) (simp add: z b)
    then show "x a b = 0" using a by simp
  qed
qed


lemma np_T_shape: "has_shape Y n k \<Longrightarrow> np_T Y = array k n (\<lambda>a i. item Y i a)"
  by (simp add: np_T_def has_shape_def)

lemma np_matmul_shape:
  assumes "has_shape A n m" "has_shape B m k"
  shows "np_matmul A B = Inr (array n k (\<lambda>i j. \<Sum>l<m. item A i l * item B l j))"
  using assms by (simp add: np_matmul_def has_shape_def sum_list_map_upt)

lemma np_subtract_shape:
  assumes "has_shape A n k" "has_shape B n k"
  shows "np_subtract A B = Inr (array n k (\<lambda>i j. item A i j - item B i j))"
  unfolding np_subtract_def using assms by (rule np_elementwise_same_shape)

lemma np_add_shape:
  assumes "has_shape A n k" "has_shape B n k"
  shows "np_add A B = Inr (array n k (\<lambda>i j. item A i j + item B i j))"
  unfolding np_add_def using assms by (rule np_elementwise_same_shape)

lemma gram_value:
  assumes "has_shape Y n k" "has_shape H n m"
  shows "np_matmul (np_T Y) H = Inr (array k m (\<lambda>a b. \<Sum>i<n. item Y i a * item H i b))"
proof -
  have "np_matmul (np_T Y) H = Inr (array k m (\<lambda>a b. \<Sum>i<n. item (np_T Y) a i * item H i b))"
    by (rule np_matmul_shape) (use assms in \<open>simp_all add: np_T_shape\<close>)
  also have "array k m (\<lambda>a b. \<Sum>i<n. item (np_T Y) a i * item H i b)
      = array k m (\<lambda>a b. \<Sum>i<n. item Y i a * item H i b)"
    using assms by (simp add: array_eq_iff np_T_shape)
  finally show ?thesis .
qed

lemma proj_value:
  fixes Y H :: "real ndarray"
  assumes Y: "has_shape Y n k" and H: "has_shape H n k"
    and W: "lyap (array k k (\<lambda>a b. \<Sum>i<n. item Y i a * item Y i b))
              (array k k (\<lambda>a b. (\<Sum>i<n. item Y i a * item H i b) - (\<Sum>i<n. item H i a * item Y i b)))
            = Inr W"
    and Ws: "has_shape W k k"
  shows "PSDFixedRank_proj lyap Y H
    = Inr (array n k (\<lambda>i j. item H i j - (\<Sum>l<k. item Y i l * item W l j)))"
proof -
  have AS: "np_subtract (array k k (\<lambda>a b. \<Sum>i<n. item Y i a * item H i b))
                        (array k k (\<lambda>a b. \<Sum>i<n. item H i a * item Y i b))
      = Inr (array k k (\<lambda>a b. (\<Sum>i<n. item Y i a * item H i b) - (\<Sum>i<n. item H i a * item Y i b)))"
    by (simp add: np_subtract_shape [of _ k k] array_eq_iff)
  have YW: "np_matmul Y W = Inr (array n k (\<lambda>i j. \<Sum>l<k. item Y i l * item W l j))"
    using Y Ws by (rule np_matmul_shape)
  have fin: "np_subtract H (array n k (\<lambda>i j. \<Sum>l<k. item Y i l * item W l j))
      = Inr (array n k (\<lambda>i j. item H i j - (\<Sum>l<k. item Y i l * item W l j)))"
    using H by (simp add: np_subtract_shape [of _ n k] array_eq_iff)
  show ?thesis
    unfolding PSDFixedRank_proj_def U_PSDFixedRank_proj_def
    by (simp add: gram_value [OF Y Y] gram_value [OF Y H] gram_value [OF H Y] AS W YW fin)
qed

lemma lyapunov_equation_iff:
  assumes A: "has_shape A k k" and X: "has_shape X k k" and Q: "has_shape Q k k"
  shows "lyapunov_equation A X Q \<longleftrightarrow>
    (\<forall>a<k. \<forall>b<k. (\<Sum>c<k. item A a c * item X c b) + (\<Sum>c<k. item X a c * item A b c) = item Q a b)"
proof -
  have AX: "np_matmul A X = Inr (array k k (\<lambda>a b. \<Sum>c<k. item A a c * item X c b))"
    using A X by (rule np_matmul_shape)
  have XA: "np_matmul X (np_T A) = Inr (array k k (\<lambda>a b. \<Sum>c<k. item X a c * item A b c))"
  proof -
    have "np_matmul X (np_T A) = Inr (array k k (\<lambda>a b. \<Sum>c<k. item X a c * item (np_T A) c b))"
      by (rule np_matmul_shape) (use A X in \<open>simp_all add: np_T_shape\<close>)
    also have "array k k (\<lambda>a b. \<Sum>c<k. item X a c * item (np_T A) c b)
        = array k k (\<lambda>a b. \<Sum>c<k. item X a c * item A b c)"
      using A by (simp add: array_eq_iff np_T_shape)
    finally show ?thesis .
  qed
  have sum: "np_add (array k k (\<lambda>a b. \<Sum>c<k. item A a c * item X c b))
                   (array k k (\<lambda>a b. \<Sum>c<k. item X a c * item A b c))
      = Inr (array k k (\<lambda>a b. (\<Sum>c<k. item A a c * item X c b) + (\<Sum>c<k. item X a c * item A b c)))"
    by (simp add: np_add_shape [of _ k k] array_eq_iff)
  have "Q = array k k (item Q)" using Q by (simp add: array_item)
  then have "lyapunov_equation A X Q \<longleftrightarrow>
      array k k (\<lambda>a b. (\<Sum>c<k. item A a c * item X c b) + (\<Sum>c<k. item X a c * item A b c))
        = array k k (item Q)"
    by (simp add: lyapunov_equation_def AX XA sum)
  then show ?thesis by (simp add: array_eq_iff)
qed


lemma full_column_rank_iff:
  "has_shape Y n k \<Longrightarrow> full_column_rank Y \<longleftrightarrow>
     (\<forall>v. (\<forall>i<n. (\<Sum>j<k. item Y i j * v j) = 0) \<longrightarrow> (\<forall>j<k. v j = 0))"
  by (simp add: full_column_rank_def has_shape_def sum_list_map_upt)

lemma solves_lyapunov_gram:
  fixes Y :: "real ndarray"
  assumes Y: "has_shape Y n k" and Q: "has_shape Q k k"
    and solver: "\<forall>G. np_matmul (np_T Y) Y = Inr G \<longrightarrow> solves_lyapunov lyap G"
  shows "\<exists>W. lyap (array k k (\<lambda>a b. \<Sum>i<n. item Y i a * item Y i b)) Q = Inr W \<and> has_shape W k k \<and>
    (\<forall>a<k. \<forall>b<k. (\<Sum>c<k. (\<Sum>i<n. item Y i a * item Y i c) * item W c b)
                 + (\<Sum>c<k. item W a c * (\<Sum>i<n. item Y i b * item Y i c)) = item Q a b)"
proof -
  let ?A = "array k k (\<lambda>a b. \<Sum>i<n. item Y i a * item Y i b)"
  have "solves_lyapunov lyap ?A"
    using solver gram_value [OF Y Y] by simp
  then obtain W where W: "lyap ?A Q = Inr W" "has_shape W k k" "lyapunov_equation ?A W Q"
    using Q unfolding solves_lyapunov_def by auto
  have "\<forall>a<k. \<forall>b<k. (\<Sum>c<k. item ?A a c * item W c b) + (\<Sum>c<k. item W a c * item ?A b c) = item Q a b"
    using W(3) lyapunov_equation_iff [of ?A k W Q] W(2) Q by simp
  then have "\<forall>a<k. \<forall>b<k. (\<Sum>c<k. (\<Sum>i<n. item Y i a * item Y i c) * item W c b)
                 + (\<Sum>c<k. item W a c * (\<Sum>i<n. item Y i b * item Y i c)) = item Q a b"
    by simp
  then show ?thesis using W(1,2) by blast
qed


lemma lyapunov_skew:
  fixes y w q :: "nat \<Rightarrow> nat \<Rightarrow> real"
  assumes full: "\<And>v. (\<forall>i<n. (\<Sum>j<k. y i j * v j) = 0) \<Longrightarrow> (\<forall>j<k. v j = 0)"
    and eq: "\<And>a b. a < k \<Longrightarrow> b < k \<Longrightarrow>
      (\<Sum>c<k. (\<Sum>i<n. y i a * y i c) * w c b) + (\<Sum>c<k. w a c * (\<Sum>i<n. y i b * y i c)) = q a b"
    and skew: "\<And>a b. a < k \<Longrightarrow> b < k \<Longrightarrow> q b a = - q a b"
  shows "\<forall>a<k. \<forall>b<k. w a b + w b a = 0"
proof (rule lyapunov_unique [where y = y and n = n])
  fix v :: "nat \<Rightarrow> real"
  assume "\<forall>i<n. (\<Sum>j<k. y i j * v j) = 0"
  then show "\<forall>j<k. v j = 0" by (rule full)
next
  fix a b assume a: "a < k" and b: "b < k"
  let ?g = "\<lambda>a c. \<Sum>i<n. y i a * y i c"
  have "(\<Sum>c<k. ?g a c * (w c b + w b c)) + (\<Sum>c<k. (w a c + w c a) * ?g b c)
      = ((\<Sum>c<k. ?g a c * w c b) + (\<Sum>c<k. w a c * ?g b c))
        + ((\<Sum>c<k. ?g b c * w c a) + (\<Sum>c<k. w b c * ?g a c))"
    by (simp add: distrib_left distrib_right sum.distrib mult.commute)
  also have "\<dots> = q a b + q b a"
    using eq [OF a b] eq [OF b a] by simp
  also have "\<dots> = 0" using skew [OF a b] by simp
  finally show "(\<Sum>c<k. ?g a c * (w c b + w b c)) + (\<Sum>c<k. (w a c + w c a) * ?g b c) = 0" .
qed

lemma projected_is_horizontal:
  fixes y h w :: "nat \<Rightarrow> nat \<Rightarrow> real"
  assumes eq: "(\<Sum>c<k. (\<Sum>i<n. y i a * y i c) * w c b) + (\<Sum>c<k. w a c * (\<Sum>i<n. y i b * y i c))
      = (\<Sum>i<n. y i a * h i b) - (\<Sum>i<n. h i a * y i b)"
    and skew: "\<And>c. c < k \<Longrightarrow> w c a = - w a c"
  shows "(\<Sum>i<n. y i a * (h i b - (\<Sum>l<k. y i l * w l b)))
       - (\<Sum>i<n. (h i a - (\<Sum>l<k. y i l * w l a)) * y i b) = 0"
proof -
  let ?g = "\<lambda>a c. \<Sum>i<n. y i a * y i c"
  have 1: "(\<Sum>i<n. y i a * (h i b - (\<Sum>l<k. y i l * w l b)))
      = (\<Sum>i<n. y i a * h i b) - (\<Sum>c<k. ?g a c * w c b)"
    by (simp add: gram_times right_diff_distrib sum_subtractf)
  have "(\<Sum>i<n. (h i a - (\<Sum>l<k. y i l * w l a)) * y i b)
      = (\<Sum>i<n. h i a * y i b) - (\<Sum>i<n. y i b * (\<Sum>l<k. y i l * w l a))"
    by (simp add: left_diff_distrib sum_subtractf mult.commute [of "sum _ _" "y _ _"])
  also have "(\<Sum>i<n. y i b * (\<Sum>l<k. y i l * w l a)) = (\<Sum>c<k. ?g b c * w c a)"
    by (rule gram_times [symmetric])
  also have "(\<Sum>c<k. ?g b c * w c a) = - (\<Sum>c<k. w a c * ?g b c)"
    unfolding sum_negf [symmetric] by (rule sum.cong [OF refl]) (simp add: skew)
  finally have 2: "(\<Sum>i<n. (h i a - (\<Sum>l<k. y i l * w l a)) * y i b)
      = (\<Sum>i<n. h i a * y i b) + (\<Sum>c<k. w a c * ?g b c)"
    by simp
  show ?thesis unfolding 1 2 using eq by simp
qed


text \<open>
  Claim C5. For \<^verbatim>\<open>PSDFixedRank\<close>, for every point \<open>Y\<close> of shape \<open>(n, k)\<close> with full
  rank \<open>k\<close> and every ambient matrix \<open>H\<close> of that shape, \<^verbatim>\<open>proj(Y, H)\<close> returns a
  matrix \<open>P\<close> of that shape and \<^verbatim>\<open>proj(Y, P)\<close> returns \<open>P\<close> again. The solver is
  the collaborator's: it is assumed to return, for the coefficient matrix \<open>Y\<^sup>T Y\<close>
  and every right-hand side, a solution of the Lyapunov equation. Entries are exact
  reals, so the two projections are equal, not only close; \<open>k < n\<close> is not needed.
\<close>

theorem PSDFixedRank_proj_idempotent:
  fixes Y H :: "real ndarray"
  assumes Y: "has_shape Y n k" and H: "has_shape H n k"
    and rank: "full_column_rank Y"
    and solver: "\<forall>G. np_matmul (np_T Y) Y = Inr G \<longrightarrow> solves_lyapunov lyap G"
  shows "\<exists>P. PSDFixedRank_proj lyap Y H = Inr P \<and> has_shape P n k \<and>
             PSDFixedRank_proj lyap Y P = Inr P"
proof -
  let ?y = "item Y" and ?h = "item H"
  let ?A = "array k k (\<lambda>a b. \<Sum>i<n. ?y i a * ?y i b)"
  let ?q = "\<lambda>a b. (\<Sum>i<n. ?y i a * ?h i b) - (\<Sum>i<n. ?h i a * ?y i b)"
  have full: "\<And>v. (\<forall>i<n. (\<Sum>j<k. ?y i j * v j) = 0) \<Longrightarrow> (\<forall>j<k. v j = 0)"
    using rank full_column_rank_iff [OF Y] by blast
  obtain W where W: "lyap ?A (array k k ?q) = Inr W" "has_shape W k k"
    and eqW: "\<And>a b. a < k \<Longrightarrow> b < k \<Longrightarrow>
      (\<Sum>c<k. (\<Sum>i<n. ?y i a * ?y i c) * item W c b)
        + (\<Sum>c<k. item W a c * (\<Sum>i<n. ?y i b * ?y i c)) = ?q a b"
    using solves_lyapunov_gram [OF Y _ solver, of "array k k ?q"] by auto
  have skew: "\<forall>a<k. \<forall>b<k. item W a b + item W b a = 0"
  proof (rule lyapunov_skew [where y = ?y and n = n and q = ?q])
    fix v :: "nat \<Rightarrow> real"
    assume "\<forall>i<n. (\<Sum>j<k. ?y i j * v j) = 0"
    then show "\<forall>j<k. v j = 0" by (rule full)
  next
    fix a b assume "a < k" "b < k"
    then show "(\<Sum>c<k. (\<Sum>i<n. ?y i a * ?y i c) * item W c b)
        + (\<Sum>c<k. item W a c * (\<Sum>i<n. ?y i b * ?y i c)) = ?q a b"
      by (rule eqW)
  next
    fix a b
    show "?q b a = - ?q a b" by (simp add: mult.commute)
  qed
  let ?p = "\<lambda>i j. ?h i j - (\<Sum>l<k. ?y i l * item W l j)"
  let ?P = "array n k ?p"
  have P: "PSDFixedRank_proj lyap Y H = Inr ?P"
    using Y H W by (rule proj_value)
  have Ps: "has_shape ?P n k" by simp
  have zero: "array k k (\<lambda>a b. (\<Sum>i<n. ?y i a * item ?P i b) - (\<Sum>i<n. item ?P i a * ?y i b))
      = array k k (\<lambda>a b. 0)"
  proof (unfold array_eq_iff, intro allI impI)
    fix a b assume a: "a < k" and b: "b < k"
    have "(\<Sum>i<n. ?y i a * item ?P i b) - (\<Sum>i<n. item ?P i a * ?y i b)
        = (\<Sum>i<n. ?y i a * ?p i b) - (\<Sum>i<n. ?p i a * ?y i b)"
      using a b by simp
    also have "\<dots> = 0"
    proof (rule projected_is_horizontal)
      show "(\<Sum>c<k. (\<Sum>i<n. ?y i a * ?y i c) * item W c b)
          + (\<Sum>c<k. item W a c * (\<Sum>i<n. ?y i b * ?y i c)) = ?q a b"
        using eqW [OF a b] .
    next
      fix c assume "c < k"
      then have "item W a c + item W c a = 0" using skew a by blast
      then show "item W c a = - item W a c" by linarith
    qed
    finally show "(\<Sum>i<n. ?y i a * item ?P i b) - (\<Sum>i<n. item ?P i a * ?y i b) = 0" .
  qed
  obtain W' where W': "lyap ?A (array k k (\<lambda>a b. 0)) = Inr W'" "has_shape W' k k"
    and eqW': "\<And>a b. a < k \<Longrightarrow> b < k \<Longrightarrow>
      (\<Sum>c<k. (\<Sum>i<n. ?y i a * ?y i c) * item W' c b)
        + (\<Sum>c<k. item W' a c * (\<Sum>i<n. ?y i b * ?y i c)) = 0"
    using solves_lyapunov_gram [OF Y _ solver, of "array k k (\<lambda>a b. 0)"] by auto
  have W'0: "\<forall>a<k. \<forall>b<k. item W' a b = 0"
  proof (rule lyapunov_unique [where y = ?y and n = n])
    fix v :: "nat \<Rightarrow> real"
    assume "\<forall>i<n. (\<Sum>j<k. ?y i j * v j) = 0"
    then show "\<forall>j<k. v j = 0" by (rule full)
  next
    fix a b assume "a < k" "b < k"
    then show "(\<Sum>c<k. (\<Sum>i<n. ?y i a * ?y i c) * item W' c b)
        + (\<Sum>c<k. item W' a c * (\<Sum>i<n. ?y i b * ?y i c)) = 0"
      by (rule eqW')
  qed
  have "PSDFixedRank_proj lyap Y ?P
      = Inr (array n k (\<lambda>i j. item ?P i j - (\<Sum>l<k. ?y i l * item W' l j)))"
  proof (rule proj_value)
    show "has_shape Y n k" by (rule Y)
    show "has_shape ?P n k" by (rule Ps)
    show "lyap ?A (array k k (\<lambda>a b. (\<Sum>i<n. ?y i a * item ?P i b) - (\<Sum>i<n. item ?P i a * ?y i b)))
        = Inr W'"
      unfolding zero by (rule W'(1))
    show "has_shape W' k k" by (rule W'(2))
  qed
  also have "array n k (\<lambda>i j. item ?P i j - (\<Sum>l<k. ?y i l * item W' l j)) = ?P"
    using W'0 by (simp add: array_eq_iff)
  finally have "PSDFixedRank_proj lyap Y ?P = Inr ?P" .
  with P Ps show ?thesis by blast
qed


lemma sum_single:
  fixes f :: "nat \<Rightarrow> real"
  assumes "a < k" and "\<And>c. c < k \<Longrightarrow> c \<noteq> a \<Longrightarrow> f c = 0"
  shows "(\<Sum>c<k. f c) = f a"
proof -
  have "(\<Sum>c<k. f c) = (\<Sum>c<k. if c = a then f a else 0)"
    by (rule sum.cong [OF refl]) (use assms(2) in auto)
  also have "\<dots> = f a" using assms(1) by simp
  finally show ?thesis .
qed

lemma lyap_diagonal_solves:
  fixes A :: "real ndarray"
  assumes A: "has_shape A k k"
    and diag: "\<And>a c. a < k \<Longrightarrow> c < k \<Longrightarrow> a \<noteq> c \<Longrightarrow> item A a c = 0"
    and nz: "\<And>a b. a < k \<Longrightarrow> b < k \<Longrightarrow> item A a a + item A b b \<noteq> 0"
  shows "solves_lyapunov (lyap_diagonal id) A"
proof (unfold solves_lyapunov_def, intro allI impI)
  fix Q :: "real ndarray"
  assume "has_shape Q (nrows A) (nrows A)"
  then have Q: "has_shape Q k k" using A by (simp add: has_shape_def)
  have s: "nrows A = k" "ncols A = k" "nrows Q = k" "ncols Q = k"
    using A Q by (auto simp: has_shape_def)
  let ?X = "array k k (\<lambda>i j. item Q i j / (item A i i + item A j j))"
  have d: "is_diagonal A"
  proof -
    have "\<forall>i\<in>{0..<k}. \<forall>j\<in>{0..<k}. i = j \<or> item A i j = 0"
    proof (intro ballI)
      fix i j assume "i \<in> {0..<k}" "j \<in> {0..<k}"
      then have "i < k" "j < k" by simp_all
      then show "i = j \<or> item A i j = 0" using diag [of i j] by blast
    qed
    then show ?thesis by (simp add: is_diagonal_def s list_all_iff)
  qed
  have n: "list_all (\<lambda>i. list_all (\<lambda>j. item A i i + id (item A j j) \<noteq> 0) [0..<k]) [0..<k]"
    using nz by (auto simp: list_all_iff)
  have X: "lyap_diagonal id A Q = Inr ?X"
    using d n by (simp add: lyap_diagonal_def s)
  have "\<forall>a<k. \<forall>b<k. (\<Sum>c<k. item A a c * item ?X c b) + (\<Sum>c<k. item ?X a c * item A b c)
      = item Q a b"
  proof (intro allI impI)
    fix a b assume a: "a < k" and b: "b < k"
    have 1: "(\<Sum>c<k. item A a c * item ?X c b) = item A a a * item ?X a b"
      by (rule sum_single [OF a]) (use a diag in auto)
    have 2: "(\<Sum>c<k. item ?X a c * item A b c) = item ?X a b * item A b b"
      by (rule sum_single [OF b]) (use b diag in auto)
    have x: "item ?X a b = item Q a b / (item A a a + item A b b)"
      using a b by simp
    have "item A a a * item ?X a b + item ?X a b * item A b b
        = item ?X a b * (item A a a + item A b b)"
      by (simp only: distrib_left distrib_right mult.commute)
    also have "\<dots> = item Q a b"
      unfolding x using nz [OF a b] by simp
    finally show "(\<Sum>c<k. item A a c * item ?X c b) + (\<Sum>c<k. item ?X a c * item A b c)
        = item Q a b"
      unfolding 1 2 .
  qed
  then have "lyapunov_equation A ?X Q"
    using lyapunov_equation_iff [OF A _ Q, of ?X] by simp
  then show "\<exists>X. lyap_diagonal id A Q = Inr X \<and> has_shape X (nrows A) (nrows A)
      \<and> lyapunov_equation A X Q"
    using X by (simp add: s)
qed

theorem PSDFixedRank_proj_idempotent_witness:
  "full_column_rank (NDArray 3 2 [[1, 0], [0, 1], [0, 0]]) \<and>
   np_matmul (np_T (NDArray 3 2 [[1, 0], [0, 1], [0, 0]])) (NDArray 3 2 [[1, 0], [0, 1], [0, 0]])
     = Inr (NDArray 2 2 [[1, 0], [0, 1 :: real]]) \<and>
   solves_lyapunov (lyap_diagonal id) (NDArray 2 2 [[1, 0], [0, 1]]) \<and>
   PSDFixedRank_proj (lyap_diagonal id) (NDArray 3 2 [[1, 0], [0, 1], [0, 0]])
       (NDArray 3 2 [[0, 1], [0, 0], [5, 7]])
     = Inr (NDArray 3 2 [[0, 1 / 2], [1 / 2, 0], [5, 7]]) \<and>
   (\<exists>P. PSDFixedRank_proj (lyap_diagonal id) (NDArray 3 2 [[1, 0], [0, 1], [0, 0]])
           (NDArray 3 2 [[0, 1], [0, 0], [5, 7]]) = Inr P \<and>
        has_shape P 3 2 \<and>
        PSDFixedRank_proj (lyap_diagonal id) (NDArray 3 2 [[1, 0], [0, 1], [0, 0]]) P = Inr P)"
proof -
  let ?Y = "NDArray 3 2 [[1, 0], [0, 1], [0, 0 :: real]]"
  let ?H = "NDArray 3 2 [[0, 1], [0, 0], [5, 7 :: real]]"
  let ?G = "NDArray 2 2 [[1, 0], [0, 1 :: real]]"
  have Y: "has_shape ?Y 3 2" and H: "has_shape ?H 3 2" and G: "has_shape ?G 2 2"
    by (simp_all add: has_shape_def)
  have rank: "full_column_rank ?Y"
    by (simp add: full_column_rank_def item_def upt_rec numeral_3_eq_3 numeral_2_eq_2 All_less_Suc)
  have gram: "np_matmul (np_T ?Y) ?Y = Inr ?G"
    by (simp add: np_matmul_def np_T_def array_def item_def upt_rec)
  have solves: "solves_lyapunov (lyap_diagonal id) ?G"
    by (rule lyap_diagonal_solves [OF G])
      (auto simp: item_def numeral_2_eq_2 less_Suc_eq)
  have val: "PSDFixedRank_proj (lyap_diagonal id) ?Y ?H
      = Inr (NDArray 3 2 [[0, 1 / 2], [1 / 2, 0], [5, 7]])"
    by (simp add: PSDFixedRank_proj_def U_PSDFixedRank_proj_def lyap_diagonal_def is_diagonal_def
        np_matmul_def np_subtract_def np_elementwise_def broadcast_dim_def broadcast_index_def
        np_T_def array_def item_def upt_rec)
  have solver: "\<forall>G. np_matmul (np_T ?Y) ?Y = Inr G \<longrightarrow> solves_lyapunov (lyap_diagonal id) G"
    using gram solves by simp
  show ?thesis
    using PSDFixedRank_proj_idempotent [OF Y H rank solver] rank gram solves val by simp
qed

end
